theory Spec2Isabelle
  imports Complex_Main "HOL-Library.AList" "HOL-Library.Sublist"
begin

section \<open>Data model\<close>

text \<open>
  The library exists in two variants. The first (\<^verbatim>\<open>src/index.tsx\<close>) decides per event
  whether a navigation is logged; its definitions carry the suffix \<open>_B\<close> where they
  differ. The second (\<^verbatim>\<open>part_001\<close>) keeps a current attribution record with an expiry
  window and sends every event to a backend; its definitions carry the suffix \<open>_A\<close>.
  Code that is the same in both variants is defined once.

  The embedding covers execution in a browser (\<^verbatim>\<open>typeof window !== 'undefined'\<close>).
  A write to local storage can fail. Where the source wraps the write in \<^verbatim>\<open>try\<close>
  (the event log, the attribution record) the \<^verbatim>\<open>catch\<close> block is a branch of the model.
  Where the write is outside any \<^verbatim>\<open>try\<close> (the user identifier and the prior device
  identifier, in \<^verbatim>\<open>recordLogin\<close>, \<^verbatim>\<open>recordSignup\<close> and \<^verbatim>\<open>updateLoginState\<close>) the
  exception leaves the method, which ends there. Reading and removing an entry, and the
  cookie, are taken to return normally.
\<close>

subsection \<open>Attribution data and page view events\<close>

text \<open>
  \<^verbatim>\<open>interface AttributionData\<close>: twelve optional string properties and, in variant A, the
  optional number \<^verbatim>\<open>attribution_timestamp\<close>. The source reads and writes the string
  properties by computed key (\<^verbatim>\<open>attribution[param]\<close>, \<^verbatim>\<open>Object.entries\<close>,
  \<^verbatim>\<open>Object.keys\<close>, object spread), so they are kept as the object's own properties:
  (key, value) pairs in insertion order. An absent property is \<^verbatim>\<open>undefined\<close>.
\<close>

record AttributionData =
  props :: "(string \<times> string) list"
  attribution_timestamp :: "int option"

record PageViewEvent =
  url :: string
  timestamp :: int
  referrer :: "string option"
  title :: "string option"
  attribution :: AttributionData
  ev_uuid :: string
  is_loggedin :: bool
  event_id :: string

subsection \<open>Options, browser and tracker state\<close>

text \<open>
  \<^verbatim>\<open>UserJourneyTrackerOptions\<close> after the constructor has merged the defaults. The cookie
  options only feed the cookie string and are left out. \<open>maxEvents\<close> is a count.
\<close>

record Options =
  maxEvents :: nat
  resetOnLogin :: bool
  resetOnSignup :: bool
  autoTrack :: bool
  trackHashChange :: bool
  trackHistoryChange :: bool

definition defaultOptions :: Options where
  "defaultOptions =
     \<lparr>maxEvents = 100, resetOnLogin = True, resetOnSignup = True, autoTrack = True,
      trackHashChange = True, trackHistoryChange = True\<rparr>"

text \<open>A parsed URL: what \<^verbatim>\<open>window.location\<close> and \<^verbatim>\<open>new URL(s)\<close> expose.\<close>

record URL =
  href :: string
  protocol :: string
  hostname :: string
  port :: string
  pathname :: string
  searchParams :: "(string \<times> string) list"

text \<open>The origin of a URL (scheme, host and port), which the source never reads.\<close>

definition origin :: "URL \<Rightarrow> string" where
  "origin u = protocol u @ ''//'' @ hostname u @ (if port u = [] then [] else '':'' @ port u)"

text \<open>\<^verbatim>\<open>URLSearchParams.get\<close>: the first value of the name, or \<^verbatim>\<open>null\<close>.\<close>

definition params_get :: "(string \<times> string) list \<Rightarrow> string \<Rightarrow> string option" where
  "params_get ps name = map_of ps name"

text \<open>
  The outcome of \<^verbatim>\<open>localStorage.setItem\<close>: the value is stored, or the call throws a
  quota error, or it throws another exception.
\<close>

datatype write_result = Stored | QuotaExceededError | OtherError

text \<open>
  What the browser supplies to one synchronous call of the tracker: the location, the
  document, the URL parser (\<open>None\<close> when \<^verbatim>\<open>new URL\<close> throws), the clock, the random
  draws \<^verbatim>\<open>Math.random() * 16 | 0\<close> in the order they are made, and whether a write of
  the event log, of the attribution record, of the user identifier or of the prior
  device identifier to local storage succeeds.
\<close>

record Env =
  location :: URL
  doc_referrer :: string
  doc_title :: string
  newURL :: "string \<Rightarrow> URL option"
  now :: int
  random :: "nat \<Rightarrow> nat"
  setItem_events :: "PageViewEvent list \<Rightarrow> write_result"
  setItem_attribution :: "AttributionData \<Rightarrow> write_result"
  setItem_user_id :: "string \<Rightarrow> write_result"
  setItem_old_uuid :: "string \<Rightarrow> write_result"

text \<open>
  An entry of local storage that holds JSON: absent, a string that \<^verbatim>\<open>JSON.parse\<close>
  rejects (or the empty string), or the value it parses to.
\<close>

datatype 'a item = Absent | Unreadable | Json 'a

text \<open>
  The browser storage the tracker owns: the entries \<^verbatim>\<open>user_journey_history\<close>,
  \<^verbatim>\<open>user_journey_history_user_id\<close>, \<^verbatim>\<open>user_journey_history_old_uuid\<close> and (variant A)
  \<^verbatim>\<open>user_journey_history_attribution\<close> of local storage, and the cookie
  \<^verbatim>\<open>user_journey_uuid\<close>. The event log and the attribution record are stored as JSON
  and read back as the value that was written.
\<close>

record Storage =
  ls_events :: "PageViewEvent list item"
  ls_user_id :: "string option"
  ls_old_uuid :: "string option"
  ls_attribution :: "AttributionData item"
  cookie_uuid :: "string option"

text \<open>
  The fields of \<^verbatim>\<open>class UserJourneyTracker\<close> common to both variants, and the browser
  storage its methods read and write.
\<close>

record Tracker =
  options :: Options
  events :: "PageViewEvent list"
  isInitialized :: bool
  uuid :: string
  derivUserId :: "string option"
  isLoggedIn :: bool
  oldUuid :: "string option"
  lastTrackedUrl :: string
  currentPageEventId :: "string option"
  storage :: Storage

text \<open>The payload of one POST to the backend (variant A).\<close>

record Payload =
  p_uuid :: string
  p_deriv_user_id :: "string option"
  p_old_uuid :: "string option"
  p_event :: PageViewEvent
  p_timestamp :: int

text \<open>
  Variant A adds the option \<^verbatim>\<open>attributionExpiry\<close> (minutes), the field
  \<^verbatim>\<open>currentAttribution\<close> and the requests handed to \<^verbatim>\<open>fetch\<close>, oldest first.
\<close>

record TrackerA = Tracker +
  attributionExpiry :: int
  currentAttribution :: AttributionData
  outbox :: "Payload list"

text \<open>
  How a call of a method ends: it returns, or an exception leaves it. Either way the
  tracker is as the statements executed until then have left it.
\<close>

datatype 'a completion = Returned 'a | Raised 'a

fun stateAfter :: "'a completion \<Rightarrow> 'a" where
  "stateAfter (Returned s) = s"
| "stateAfter (Raised s) = s"

fun returns :: "'a completion \<Rightarrow> bool" where
  "returns (Returned s) = True"
| "returns (Raised s) = False"

text \<open>The statements after one that may throw run only when it has returned.\<close>

fun andThen :: "'a completion \<Rightarrow> ('a \<Rightarrow> 'a completion) \<Rightarrow> 'a completion" where
  "andThen (Returned s) f = f s"
| "andThen (Raised s) f = Raised s"

text \<open>The value \<^verbatim>\<open>exportJourney\<close> returns.\<close>

record Journey =
  j_uuid :: string
  deriv_user_id :: "string option"
  old_uuid :: "string option"
  j_events :: "PageViewEvent list"

section \<open>The event log\<close>

text \<open>\<^verbatim>\<open>x || undefined\<close> on a string or \<^verbatim>\<open>null\<close>: the empty string is falsy.\<close>

definition orUndefined :: "string option \<Rightarrow> string option" where
  "orUndefined x = (case x of None \<Rightarrow> None | Some v \<Rightarrow> if v = [] then None else Some v)"

text \<open>
  \<^verbatim>\<open>saveEvents\<close>: a quota error on the write (a \<^verbatim>\<open>DOMException\<close> named
  \<^verbatim>\<open>QuotaExceededError\<close> or \<^verbatim>\<open>NS_ERROR_DOM_QUOTA_REACHED\<close>) cuts a log of more than 10
  events to its last 10 and saves again; any other error is logged only.
\<close>

function saveEvents :: "Env \<Rightarrow> 'a Tracker_scheme \<Rightarrow> 'a Tracker_scheme" where
  "saveEvents w s =
     (if setItem_events w (events s) = Stored then s\<lparr>storage := (storage s)\<lparr>ls_events := Json (events s)\<rparr>\<rparr>
      else if setItem_events w (events s) = QuotaExceededError \<and> length (events s) > 10
        then saveEvents w (s\<lparr>events := drop (length (events s) - 10) (events s)\<rparr>)
      else s)"
  by pat_completeness auto
termination
  by (relation "measure (\<lambda>(w, s). length (events s))") auto

declare saveEvents.simps [simp del]

text \<open>\<^verbatim>\<open>addEvent\<close> of variant B: push, trim to \<open>maxEvents\<close>, save.\<close>

definition addEvent :: "Env \<Rightarrow> PageViewEvent \<Rightarrow> 'a Tracker_scheme \<Rightarrow> 'a Tracker_scheme" where
  "addEvent w event s =
     (let s1 = s\<lparr>events := events s @ [event]\<rparr>;
          s2 = (if length (events s1) > maxEvents (options s1)
                then s1\<lparr>events := drop (length (events s1) - maxEvents (options s1)) (events s1)\<rparr>
                else s1)
      in saveEvents w s2)"

text \<open>\<^verbatim>\<open>loadEvents\<close>: a missing, empty or unparsable entry leaves the log as it is.\<close>

definition loadEvents :: "'a Tracker_scheme \<Rightarrow> 'a Tracker_scheme" where
  "loadEvents s = (case ls_events (storage s) of Json es \<Rightarrow> s\<lparr>events := es\<rparr> | _ \<Rightarrow> s)"

text \<open>\<^verbatim>\<open>getEvents\<close> returns \<^verbatim>\<open>[...this.events]\<close>; as a value, the sequence of the events.\<close>

definition getEvents :: "'a Tracker_scheme \<Rightarrow> PageViewEvent list" where
  "getEvents s = events s"

definition clearEvents :: "'a Tracker_scheme \<Rightarrow> 'a Tracker_scheme" where
  "clearEvents s = s\<lparr>events := [], storage := (storage s)\<lparr>ls_events := Absent\<rparr>\<rparr>"

text \<open>\<^verbatim>\<open>Array.prototype.findIndex\<close>, with \<open>None\<close> for \<open>-1\<close>.\<close>

fun findIndex :: "('a \<Rightarrow> bool) \<Rightarrow> 'a list \<Rightarrow> nat option" where
  "findIndex P [] = None"
| "findIndex P (x # xs) =
     (if P x then Some 0 else (case findIndex P xs of None \<Rightarrow> None | Some i \<Rightarrow> Some (Suc i)))"

definition updateEventLoginState ::
  "Env \<Rightarrow> string \<Rightarrow> bool \<Rightarrow> 'a Tracker_scheme \<Rightarrow> 'a Tracker_scheme" where
  "updateEventLoginState w eventId loggedIn s =
     (case findIndex (\<lambda>event. event_id event = eventId) (events s) of
        None \<Rightarrow> s
      | Some eventIndex \<Rightarrow>
          saveEvents w
            (s\<lparr>events := (events s)[eventIndex := (events s ! eventIndex)\<lparr>is_loggedin := loggedIn\<rparr>]\<rparr>))"

definition exportJourney :: "'a Tracker_scheme \<Rightarrow> Journey" where
  "exportJourney s =
     \<lparr>j_uuid = uuid s, deriv_user_id = orUndefined (derivUserId s),
      old_uuid = orUndefined (oldUuid s), j_events = getEvents s\<rparr>"

section \<open>Identity store\<close>

text \<open>
  \<^verbatim>\<open>generateUUID\<close>: every \<^verbatim>\<open>x\<close> and \<^verbatim>\<open>y\<close> of the template is replaced by a hexadecimal
  digit, \<open>r\<close> for \<^verbatim>\<open>x\<close> and \<^verbatim>\<open>r & 0x3 | 0x8\<close> for \<^verbatim>\<open>y\<close>, with a new draw \<open>r\<close> each time.
\<close>

definition hexDigits :: string where
  "hexDigits = ''0123456789abcdef''"

fun fillTemplate :: "(nat \<Rightarrow> nat) \<Rightarrow> nat \<Rightarrow> string \<Rightarrow> string" where
  "fillTemplate rnd i [] = []"
| "fillTemplate rnd i (c # cs) =
     (if c = CHR ''x'' \<or> c = CHR ''y''
      then (let r = rnd i mod 16;
                v = (if c = CHR ''x'' then r else r mod 4 + 8)
            in (hexDigits ! v) # fillTemplate rnd (Suc i) cs)
      else c # fillTemplate rnd i cs)"

definition generateUUID :: "Env \<Rightarrow> string" where
  "generateUUID w = fillTemplate (random w) 0 ''xxxxxxxx-xxxx-4xxx-yxxx-xxxxxxxxxxxx''"

text \<open>
  \<^verbatim>\<open>getOrCreateUUID\<close>: the cookie when it has a non-empty value, else a new identifier,
  which is written to the cookie. Returns the identifier and the storage.
\<close>

definition getOrCreateUUID :: "Env \<Rightarrow> Storage \<Rightarrow> string \<times> Storage" where
  "getOrCreateUUID w st =
     (case orUndefined (cookie_uuid st) of
        Some u \<Rightarrow> (u, st)
      | None \<Rightarrow> (generateUUID w, st\<lparr>cookie_uuid := Some (generateUUID w)\<rparr>))"

text \<open>The constructor of variant B, on the options after the merge with the defaults.\<close>

definition constructor_B :: "Options \<Rightarrow> Env \<Rightarrow> Storage \<Rightarrow> Tracker" where
  "constructor_B opts w st =
     (let (u, st1) = getOrCreateUUID w st
      in \<lparr>options = opts, events = [], isInitialized = False, uuid = u, derivUserId = None,
          isLoggedIn = False, oldUuid = None, lastTrackedUrl = [], currentPageEventId = None,
          storage = st1\<rparr>)"

section \<open>Attribution extractor\<close>

definition utmParams_B :: "string list" where
  "utmParams_B = [''utm_campaign'', ''utm_medium'', ''utm_source'', ''utm_term'',
                  ''utm_ad_id'', ''utm_ad_group_id'', ''utm_campaign_id'']"

definition utmParams_A :: "string list" where
  "utmParams_A = [''utm_source'', ''utm_medium'', ''utm_campaign'', ''utm_term'',
                  ''utm_ad_id'', ''utm_ad_group_id'', ''utm_campaign_id'']"

definition clickIds :: "string list" where
  "clickIds = [''gclid'', ''fbclid'', ''mkclid'']"

text \<open>
  The loop \<^verbatim>\<open>names.forEach(param => { const value = params.get(param); if (value)
  attribution[param] = value; })\<close>.
\<close>

definition extractParams ::
  "(string \<times> string) list \<Rightarrow> string list \<Rightarrow> (string \<times> string) list \<Rightarrow> (string \<times> string) list" where
  "extractParams params names a =
     foldl (\<lambda>acc param.
              case params_get params param of
                None \<Rightarrow> acc
              | Some v \<Rightarrow> if v \<noteq> [] then AList.update param v acc else acc)
           a names"

text \<open>
  The referrer block: a non-empty \<^verbatim>\<open>document.referrer\<close> is parsed; it is stored when
  its hostname is not the page's; a referrer that does not parse is ignored.
\<close>

definition addReferrer :: "Env \<Rightarrow> (string \<times> string) list \<Rightarrow> (string \<times> string) list" where
  "addReferrer w a =
     (if doc_referrer w \<noteq> []
      then (case newURL w (doc_referrer w) of
              None \<Rightarrow> a
            | Some referrerUrl \<Rightarrow>
                if hostname referrerUrl \<noteq> hostname (location w)
                then AList.update ''referrer'' (doc_referrer w) a
                else a)
      else a)"

text \<open>
  \<^verbatim>\<open>parseAttributionData\<close>. \<^verbatim>\<open>new URL(window.location.href)\<close> is the location itself.
\<close>

definition parseAttributionData_B :: "Env \<Rightarrow> AttributionData" where
  "parseAttributionData_B w =
     (let params = searchParams (location w);
          a1 = extractParams params utmParams_B [];
          a2 = extractParams params clickIds a1;
          a3 = addReferrer w a2;
          a4 = AList.update ''landing_page'' (pathname (location w)) a3
      in \<lparr>props = a4, attribution_timestamp = None\<rparr>)"

definition parseAttributionData_A :: "Env \<Rightarrow> AttributionData" where
  "parseAttributionData_A w =
     (let params = searchParams (location w);
          a1 = extractParams params utmParams_A [];
          a2 = extractParams params clickIds a1;
          a3 = addReferrer w a2;
          a4 = AList.update ''landing_page'' (pathname (location w)) a3
      in \<lparr>props = a4, attribution_timestamp = Some (now w)\<rparr>)"

section \<open>Variant B: per-event deduplication\<close>

text \<open>
  \<^verbatim>\<open>isNewAttributionSource\<close>. \<^verbatim>\<open>Object.entries(attribution)\<close> lists the string
  properties and, when present, the timestamp; \<^verbatim>\<open>value && ...\<close> needs a non-empty string,
  or a number other than 0.
\<close>

definition isNewAttributionSource :: "Env \<Rightarrow> 'a Tracker_scheme \<Rightarrow> AttributionData \<Rightarrow> bool" where
  "isNewAttributionSource w s a =
     (if events s = [] then True
      else let lastEvent = last (events s) in
        if url lastEvent \<noteq> href (location w) then True
        else list_ex (\<lambda>(key, v).
                 if key = ''referrer'' \<or> key = ''landing_page'' then False
                 else v \<noteq> [] \<and> map_of (props (attribution lastEvent)) key \<noteq> Some v)
               (props a)
             \<or> (case attribution_timestamp a of
                   None \<Rightarrow> False
                 | Some t \<Rightarrow> t \<noteq> 0 \<and> attribution_timestamp (attribution lastEvent) \<noteq> Some t))"

text \<open>
  The object literal of \<^verbatim>\<open>trackCurrentPageView\<close>, the same in both variants.
\<close>

definition newPageViewEvent ::
  "Env \<Rightarrow> 'a Tracker_scheme \<Rightarrow> AttributionData \<Rightarrow> string \<Rightarrow> PageViewEvent" where
  "newPageViewEvent w s a eventId =
     \<lparr>url = href (location w), timestamp = now w,
      referrer = orUndefined (Some (doc_referrer w)),
      title = orUndefined (Some (doc_title w)),
      attribution = a, ev_uuid = uuid s, is_loggedin = isLoggedIn s, event_id = eventId\<rparr>"

definition trackCurrentPageView_B :: "Env \<Rightarrow> 'a Tracker_scheme \<Rightarrow> 'a Tracker_scheme" where
  "trackCurrentPageView_B w s =
     (let a = parseAttributionData_B w in
      if isNewAttributionSource w s a
      then (let eventId = generateUUID w;
                event = newPageViewEvent w s a eventId
            in addEvent w event (s\<lparr>currentPageEventId := Some eventId\<rparr>))
      else s)"

text \<open>
  The handler that variant B installs for \<^verbatim>\<open>popstate\<close>, \<^verbatim>\<open>hashchange\<close>,
  \<^verbatim>\<open>pushState\<close> and \<^verbatim>\<open>replaceState\<close>, and \<^verbatim>\<open>trackPageView\<close> once the history entry
  is pushed: \<open>w\<close> is the browser after the navigation.
\<close>

definition onNavigation_B :: "Env \<Rightarrow> 'a Tracker_scheme \<Rightarrow> 'a Tracker_scheme" where
  "onNavigation_B w s =
     (if href (location w) \<noteq> lastTrackedUrl s
      then trackCurrentPageView_B w (s\<lparr>lastTrackedUrl := href (location w)\<rparr>)
      else s)"

definition trackPageView_B :: "Env \<Rightarrow> 'a Tracker_scheme \<Rightarrow> 'a Tracker_scheme" where
  "trackPageView_B w s = trackCurrentPageView_B w (s\<lparr>lastTrackedUrl := href (location w)\<rparr>)"

section \<open>Variant A: persisted attribution\<close>

definition attributionParams :: "string list" where
  "attributionParams = [''utm_source'', ''utm_medium'', ''utm_campaign'', ''utm_term'',
                        ''utm_ad_id'', ''utm_ad_group_id'', ''utm_campaign_id'',
                        ''gclid'', ''fbclid'', ''mkclid'']"

definition hasNewAttributionData :: "AttributionData \<Rightarrow> bool" where
  "hasNewAttributionData newAttribution =
     list_ex (\<lambda>param. map_of (props newAttribution) param \<noteq> None) attributionParams"

text \<open>\<^verbatim>\<open>saveAttributionData\<close>: a failed write is logged and changes nothing.\<close>

definition saveAttributionData :: "Env \<Rightarrow> TrackerA \<Rightarrow> TrackerA" where
  "saveAttributionData w s =
     (if setItem_attribution w (currentAttribution s) = Stored
      then s\<lparr>storage := (storage s)\<lparr>ls_attribution := Json (currentAttribution s)\<rparr>\<rparr>
      else s)"

text \<open>The age of a capture timestamp, \<^verbatim>\<open>(now - attribution_timestamp) / (1000 * 60)\<close>.\<close>

definition ageInMinutes :: "Env \<Rightarrow> int \<Rightarrow> real" where
  "ageInMinutes w t = real_of_int (now w - t) / (1000 * 60)"

text \<open>
  \<^verbatim>\<open>loadAttributionData\<close>. The test \<^verbatim>\<open>if (attribution.attribution_timestamp)\<close> holds for
  a timestamp that is present and not 0.
\<close>

definition loadAttributionData :: "Env \<Rightarrow> TrackerA \<Rightarrow> TrackerA" where
  "loadAttributionData w s =
     (case ls_attribution (storage s) of
        Json a \<Rightarrow>
          (case attribution_timestamp a of
             Some t \<Rightarrow>
               if t \<noteq> 0
               then (if ageInMinutes w t \<le> real_of_int (attributionExpiry s)
                     then s\<lparr>currentAttribution := a\<rparr>
                     else s\<lparr>storage := (storage s)\<lparr>ls_attribution := Absent\<rparr>\<rparr>)
               else s\<lparr>currentAttribution := a\<rparr>
           | None \<Rightarrow> s\<lparr>currentAttribution := a\<rparr>)
      | _ \<Rightarrow> s)"

text \<open>The constructor of variant A; \<^verbatim>\<open>attributionExpiry\<close> defaults to \<open>30 * 24 * 60\<close>.\<close>

definition defaultAttributionExpiry :: int where
  "defaultAttributionExpiry = 30 * 24 * 60"

definition constructor_A :: "Options \<Rightarrow> int \<Rightarrow> Env \<Rightarrow> Storage \<Rightarrow> TrackerA" where
  "constructor_A opts expiry w st =
     (let (u, st1) = getOrCreateUUID w st
      in loadAttributionData w
           \<lparr>options = opts, events = [], isInitialized = False, uuid = u, derivUserId = None,
            isLoggedIn = False, oldUuid = None, lastTrackedUrl = [], currentPageEventId = None,
            storage = st1, attributionExpiry = expiry,
            currentAttribution = \<lparr>props = [], attribution_timestamp = None\<rparr>, outbox = []\<rparr>)"

text \<open>
  \<^verbatim>\<open>getAttributionForPageView\<close> returns the attribution of the page view and updates
  the tracker. \<^verbatim>\<open>Object.keys(this.currentAttribution).length > 0\<close> counts every property.
\<close>

definition getAttributionForPageView :: "Env \<Rightarrow> TrackerA \<Rightarrow> AttributionData \<times> TrackerA" where
  "getAttributionForPageView w s =
     (let urlAttribution = parseAttributionData_A w in
      if hasNewAttributionData urlAttribution
      then (urlAttribution, saveAttributionData w (s\<lparr>currentAttribution := urlAttribution\<rparr>))
      else if props (currentAttribution s) \<noteq> [] \<or> attribution_timestamp (currentAttribution s) \<noteq> None
      then ((currentAttribution s)
              \<lparr>props := AList.update ''landing_page'' (pathname (location w))
                          (props (currentAttribution s))\<rparr>, s)
      else (urlAttribution, s))"

text \<open>
  \<^verbatim>\<open>sendEventToBackend\<close> builds the payload and hands it to \<^verbatim>\<open>fetch\<close> before it first
  awaits; the response is only logged.
\<close>

definition sendEventToBackend :: "Env \<Rightarrow> PageViewEvent \<Rightarrow> TrackerA \<Rightarrow> TrackerA" where
  "sendEventToBackend w event s =
     s\<lparr>outbox := outbox s @
          [\<lparr>p_uuid = uuid s, p_deriv_user_id = orUndefined (derivUserId s),
            p_old_uuid = orUndefined (oldUuid s), p_event = event, p_timestamp = now w\<rparr>]\<rparr>"

text \<open>\<^verbatim>\<open>addEvent\<close> of variant A: that of variant B, then the event is sent.\<close>

definition addEvent_A :: "Env \<Rightarrow> PageViewEvent \<Rightarrow> TrackerA \<Rightarrow> TrackerA" where
  "addEvent_A w event s = sendEventToBackend w event (addEvent w event s)"

definition trackCurrentPageView_A :: "Env \<Rightarrow> TrackerA \<Rightarrow> TrackerA" where
  "trackCurrentPageView_A w s =
     (if lastTrackedUrl s = href (location w) then s
      else let s1 = s\<lparr>lastTrackedUrl := href (location w)\<rparr>;
               (a, s2) = getAttributionForPageView w s1;
               eventId = generateUUID w;
               event = newPageViewEvent w s2 a eventId
           in addEvent_A w event (s2\<lparr>currentPageEventId := Some eventId\<rparr>))"

section \<open>Identity transitions\<close>

text \<open>The block \<^verbatim>\<open>if (this.currentPageEventId) { this.updateEventLoginState(...) }\<close>.\<close>

definition updateCurrentEvent :: "Env \<Rightarrow> bool \<Rightarrow> 'a Tracker_scheme \<Rightarrow> 'a Tracker_scheme" where
  "updateCurrentEvent w loggedIn s =
     (case orUndefined (currentPageEventId s) of
        None \<Rightarrow> s
      | Some eventId \<Rightarrow> updateEventLoginState w eventId loggedIn s)"

text \<open>
  The writes \<^verbatim>\<open>localStorage.setItem(`${this.storageKey}_user_id`, id)\<close> and
  \<^verbatim>\<open>if (this.oldUuid) { localStorage.setItem(`${this.storageKey}_old_uuid`, this.oldUuid) }\<close>.
  Neither is inside a \<^verbatim>\<open>try\<close>: a write that fails throws out of the calling method.
\<close>

definition storeUserId :: "Env \<Rightarrow> string \<Rightarrow> 'a Tracker_scheme \<Rightarrow> 'a Tracker_scheme completion" where
  "storeUserId w userId s =
     (if setItem_user_id w userId = Stored
      then Returned (s\<lparr>storage := (storage s)\<lparr>ls_user_id := Some userId\<rparr>\<rparr>)
      else Raised s)"

definition storeOldUuid :: "Env \<Rightarrow> 'a Tracker_scheme \<Rightarrow> 'a Tracker_scheme completion" where
  "storeOldUuid w s =
     (case orUndefined (oldUuid s) of
        None \<Rightarrow> Returned s
      | Some old \<Rightarrow>
          if setItem_old_uuid w old = Stored
          then Returned (s\<lparr>storage := (storage s)\<lparr>ls_old_uuid := Some old\<rparr>\<rparr>)
          else Raised s)"

text \<open>
  \<^verbatim>\<open>recordLogin\<close>: the assignments, the write of the user identifier, the update of the
  current event, the reset.
\<close>

definition recordLogin_B ::
  "Env \<Rightarrow> string \<Rightarrow> 'a Tracker_scheme \<Rightarrow> 'a Tracker_scheme completion" where
  "recordLogin_B w userId s =
     andThen (storeUserId w userId (s\<lparr>isLoggedIn := True, derivUserId := Some userId\<rparr>))
       (\<lambda>s1. let s2 = updateCurrentEvent w True s1
             in Returned (if resetOnLogin (options s2) then clearEvents s2 else s2))"

text \<open>
  \<^verbatim>\<open>recordSignup\<close>: \<^verbatim>\<open>this.oldUuid = this.uuid\<close> first, then as \<^verbatim>\<open>recordLogin\<close> with the
  write of the prior device identifier after that of the user identifier.
\<close>

definition recordSignup_B ::
  "Env \<Rightarrow> string \<Rightarrow> 'a Tracker_scheme \<Rightarrow> 'a Tracker_scheme completion" where
  "recordSignup_B w userId s =
     andThen (storeUserId w userId
                (s\<lparr>oldUuid := Some (uuid s), isLoggedIn := True, derivUserId := Some userId\<rparr>))
       (\<lambda>s1. andThen (storeOldUuid w s1)
          (\<lambda>s2. let s3 = updateCurrentEvent w True s2
                in Returned (if resetOnSignup (options s3) then clearEvents s3 else s3)))"

text \<open>
  Variant A also sends the current event, when it is still in the log after the update:
  \<^verbatim>\<open>this.events.find(event => event.event_id === this.currentPageEventId)\<close>.
\<close>

definition updateAndSendCurrentEvent :: "Env \<Rightarrow> bool \<Rightarrow> TrackerA \<Rightarrow> TrackerA" where
  "updateAndSendCurrentEvent w loggedIn s =
     (case orUndefined (currentPageEventId s) of
        None \<Rightarrow> s
      | Some eventId \<Rightarrow>
          (let s1 = updateEventLoginState w eventId loggedIn s
           in case find (\<lambda>event. Some (event_id event) = currentPageEventId s1) (events s1) of
                None \<Rightarrow> s1
              | Some updatedEvent \<Rightarrow> sendEventToBackend w updatedEvent s1))"

definition recordLogin_A :: "Env \<Rightarrow> string \<Rightarrow> TrackerA \<Rightarrow> TrackerA completion" where
  "recordLogin_A w userId s =
     andThen (storeUserId w userId (s\<lparr>isLoggedIn := True, derivUserId := Some userId\<rparr>))
       (\<lambda>s1. let s2 = updateAndSendCurrentEvent w True s1
             in Returned (if resetOnLogin (options s2) then clearEvents s2 else s2))"

definition recordSignup_A :: "Env \<Rightarrow> string \<Rightarrow> TrackerA \<Rightarrow> TrackerA completion" where
  "recordSignup_A w userId s =
     andThen (storeUserId w userId
                (s\<lparr>oldUuid := Some (uuid s), isLoggedIn := True, derivUserId := Some userId\<rparr>))
       (\<lambda>s1. andThen (storeOldUuid w s1)
          (\<lambda>s2. let s3 = updateAndSendCurrentEvent w True s2
                in Returned (if resetOnSignup (options s3) then clearEvents s3 else s3)))"

text \<open>
  \<^verbatim>\<open>updateLoginState\<close>: the user identifier is assigned and written only when it is
  given and not empty. Variant B then updates the current event whenever there is one;
  variant A only when the login state changed, and then sends the event.
\<close>

definition updateLoginState_B ::
  "Env \<Rightarrow> bool \<Rightarrow> string option \<Rightarrow> 'a Tracker_scheme \<Rightarrow> 'a Tracker_scheme completion" where
  "updateLoginState_B w loggedIn userId s =
     (let s1 = s\<lparr>isLoggedIn := loggedIn\<rparr>
      in andThen (case orUndefined userId of
                    None \<Rightarrow> Returned s1
                  | Some u \<Rightarrow> storeUserId w u (s1\<lparr>derivUserId := Some u\<rparr>))
           (\<lambda>s2. Returned (updateCurrentEvent w loggedIn s2)))"

definition updateLoginState_A ::
  "Env \<Rightarrow> bool \<Rightarrow> string option \<Rightarrow> TrackerA \<Rightarrow> TrackerA completion" where
  "updateLoginState_A w loggedIn userId s =
     (let previousState = isLoggedIn s;
          s1 = s\<lparr>isLoggedIn := loggedIn\<rparr>
      in andThen (case orUndefined userId of
                    None \<Rightarrow> Returned s1
                  | Some u \<Rightarrow> storeUserId w u (s1\<lparr>derivUserId := Some u\<rparr>))
           (\<lambda>s2. Returned (if previousState \<noteq> loggedIn
                          then updateAndSendCurrentEvent w loggedIn s2 else s2)))"

section \<open>Initialisation and the public interface\<close>

text \<open>
  \<^verbatim>\<open>init(isLoggedIn?, userId?)\<close>. The listeners that \<^verbatim>\<open>setupAutoTracking\<close> installs run
  later, as calls of their own; of \<^verbatim>\<open>setupAutoTracking\<close> itself the model keeps what it
  does to the tracker: in variant B it records the URL and tracks the first page view.
\<close>

definition initIdentity ::
  "bool option \<Rightarrow> string option \<Rightarrow> 'a Tracker_scheme \<Rightarrow> 'a Tracker_scheme" where
  "initIdentity loggedIn userId s =
     (let s1 = (case loggedIn of None \<Rightarrow> s | Some b \<Rightarrow> s\<lparr>isLoggedIn := b\<rparr>)
      in case orUndefined userId of
           Some u \<Rightarrow> s1\<lparr>derivUserId := Some u\<rparr>
         | None \<Rightarrow>
             (case orUndefined (ls_user_id (storage s1)) of
                None \<Rightarrow> s1
              | Some storedUserId \<Rightarrow> s1\<lparr>derivUserId := Some storedUserId, isLoggedIn := True\<rparr>))"

definition init_B ::
  "Env \<Rightarrow> bool option \<Rightarrow> string option \<Rightarrow> 'a Tracker_scheme \<Rightarrow> 'a Tracker_scheme" where
  "init_B w loggedIn userId s =
     (if isInitialized s then s
      else let s1 = loadEvents (initIdentity loggedIn userId s);
               s2 = (if autoTrack (options s1)
                     then trackCurrentPageView_B w (s1\<lparr>lastTrackedUrl := href (location w)\<rparr>)
                     else s1)
           in s2\<lparr>isInitialized := True\<rparr>)"

definition init_A :: "Env \<Rightarrow> bool option \<Rightarrow> string option \<Rightarrow> TrackerA \<Rightarrow> TrackerA" where
  "init_A w loggedIn userId s =
     (if isInitialized s then s
      else let s1 = loadEvents (initIdentity loggedIn userId s);
               s2 = loadAttributionData w s1;
               s3 = trackCurrentPageView_A w s2
           in s3\<lparr>isInitialized := True\<rparr>)"

text \<open>
  \<^verbatim>\<open>trackPageView\<close> of variant A, once the history entry is pushed; its listeners call
  it too.
\<close>

definition trackPageView_A :: "Env \<Rightarrow> TrackerA \<Rightarrow> TrackerA" where
  "trackPageView_A w s = trackCurrentPageView_A w s"

text \<open>
  The calls that change a tracker: the public methods, and a navigation that the
  listeners of variant B observe. \<^verbatim>\<open>getEvents\<close> and \<^verbatim>\<open>exportJourney\<close> only read.
  Whether a call returned or raised, the next call finds the tracker as it left it.
\<close>

datatype call =
    Init "bool option" "string option"
  | TrackPageView
  | Navigated
  | RecordLogin string
  | RecordSignup string
  | UpdateLoginState bool "string option"
  | ClearEvents

fun run_B :: "'a Tracker_scheme \<Rightarrow> Env \<times> call \<Rightarrow> 'a Tracker_scheme" where
  "run_B s (w, Init loggedIn userId) = init_B w loggedIn userId s"
| "run_B s (w, TrackPageView) = trackPageView_B w s"
| "run_B s (w, Navigated) = onNavigation_B w s"
| "run_B s (w, RecordLogin userId) = stateAfter (recordLogin_B w userId s)"
| "run_B s (w, RecordSignup userId) = stateAfter (recordSignup_B w userId s)"
| "run_B s (w, UpdateLoginState loggedIn userId) =
     stateAfter (updateLoginState_B w loggedIn userId s)"
| "run_B s (w, ClearEvents) = clearEvents s"

fun run_A :: "TrackerA \<Rightarrow> Env \<times> call \<Rightarrow> TrackerA" where
  "run_A s (w, Init loggedIn userId) = init_A w loggedIn userId s"
| "run_A s (w, TrackPageView) = trackPageView_A w s"
| "run_A s (w, Navigated) = trackPageView_A w s"
| "run_A s (w, RecordLogin userId) = stateAfter (recordLogin_A w userId s)"
| "run_A s (w, RecordSignup userId) = stateAfter (recordSignup_A w userId s)"
| "run_A s (w, UpdateLoginState loggedIn userId) =
     stateAfter (updateLoginState_A w loggedIn userId s)"
| "run_A s (w, ClearEvents) = clearEvents s"

section \<open>The event log as shared objects\<close>

text \<open>
  In the source the log is an array of references to event objects, and \<^verbatim>\<open>getEvents\<close>
  returns \<^verbatim>\<open>[...this.events]\<close>: a new array that holds the same references. Whether a
  caller can change the log through the returned value depends on that sharing, so for
  this question the log is modelled on a heap of cells, an address being an index: an
  array cell holds the addresses of its elements, an object cell holds an event.
\<close>

type_synonym addr = nat

datatype cell = Array "addr list" | Object PageViewEvent

type_synonym heap = "cell list"

definition lookup :: "heap \<Rightarrow> addr \<Rightarrow> cell option" where
  "lookup h a = (if a < length h then Some (h ! a) else None)"

definition alloc :: "heap \<Rightarrow> cell \<Rightarrow> addr \<times> heap" where
  "alloc h c = (length h, h @ [c])"

definition derefAll :: "heap \<Rightarrow> addr list \<Rightarrow> PageViewEvent list" where
  "derefAll h refs =
     concat (map (\<lambda>r. case lookup h r of Some (Object e) \<Rightarrow> [e] | _ \<Rightarrow> []) refs)"

text \<open>The events of the array at an address, read through the references.\<close>

definition eventsAt :: "heap \<Rightarrow> addr \<Rightarrow> PageViewEvent list" where
  "eventsAt h a = (case lookup h a of Some (Array refs) \<Rightarrow> derefAll h refs | _ \<Rightarrow> [])"

text \<open>\<^verbatim>\<open>getEvents\<close> on the heap: the address of the new array, and the heap.\<close>

definition getEvents_heap :: "heap \<Rightarrow> addr \<Rightarrow> addr \<times> heap" where
  "getEvents_heap h this_events =
     (case lookup h this_events of
        Some (Array refs) \<Rightarrow> alloc h (Array refs)
      | _ \<Rightarrow> alloc h (Array []))"

text \<open>
  What a caller can do with the returned array \<open>array\<close>: assign a field of an element,
  \<^verbatim>\<open>array[i].is_loggedin = b\<close>, and change the array itself (\<^verbatim>\<open>push\<close>, \<^verbatim>\<open>pop\<close>, \<^verbatim>\<open>length = 0\<close>,
  \<^verbatim>\<open>array[i] = x\<close>), which leaves it holding some addresses \<open>refs\<close>.
\<close>

definition assign_is_loggedin :: "heap \<Rightarrow> addr \<Rightarrow> nat \<Rightarrow> bool \<Rightarrow> heap" where
  "assign_is_loggedin h array i b =
     (case lookup h array of
        Some (Array refs) \<Rightarrow>
          (if i < length refs
           then (case lookup h (refs ! i) of
                   Some (Object e) \<Rightarrow> h[refs ! i := Object (e\<lparr>is_loggedin := b\<rparr>)]
                 | _ \<Rightarrow> h)
           else h)
      | _ \<Rightarrow> h)"

definition assign_array :: "heap \<Rightarrow> addr \<Rightarrow> addr list \<Rightarrow> heap" where
  "assign_array h array refs =
     (case lookup h array of Some (Array old) \<Rightarrow> h[array := Array refs] | _ \<Rightarrow> h)"

text \<open>A log: an array whose elements are event objects.\<close>

definition wellFormedLog :: "heap \<Rightarrow> addr \<Rightarrow> bool" where
  "wellFormedLog h a =
     (case lookup h a of
        Some (Array refs) \<Rightarrow> list_all (\<lambda>r. case lookup h r of Some (Object e) \<Rightarrow> True | _ \<Rightarrow> False) refs
      | _ \<Rightarrow> False)"

section \<open>Sequences of calls and notions used in the statements\<close>

text \<open>The last \<open>n\<close> elements of a list: the \<open>n\<close> most recent entries of a log.\<close>

definition lastN :: "nat \<Rightarrow> 'a list \<Rightarrow> 'a list" where
  "lastN n xs = drop (length xs - n) xs"

text \<open>A sequence of \<^verbatim>\<open>addEvent\<close> calls, each in the browser as it is at that call.\<close>

definition appendAll :: "'a Tracker_scheme \<Rightarrow> (Env \<times> PageViewEvent) list \<Rightarrow> 'a Tracker_scheme" where
  "appendAll s calls = foldl (\<lambda>s (w, event). addEvent w event s) s calls"

definition appendAll_A :: "TrackerA \<Rightarrow> (Env \<times> PageViewEvent) list \<Rightarrow> TrackerA" where
  "appendAll_A s calls = foldl (\<lambda>s (w, event). addEvent_A w event s) s calls"

text \<open>A browser in which no write of the event log fails for lack of quota.\<close>

definition quotaFree :: "Env \<Rightarrow> bool" where
  "quotaFree w = (\<forall>es. setItem_events w es \<noteq> QuotaExceededError)"

text \<open>
  The log with the authenticated flag set on the current event: the first event whose
  identifier is the current page event identifier, if there is one.
\<close>

fun markFirst :: "string \<Rightarrow> PageViewEvent list \<Rightarrow> PageViewEvent list" where
  "markFirst i [] = []"
| "markFirst i (e # es) =
     (if event_id e = i then e\<lparr>is_loggedin := True\<rparr> # es else e # markFirst i es)"

definition markCurrent :: "string option \<Rightarrow> PageViewEvent list \<Rightarrow> PageViewEvent list" where
  "markCurrent current es =
     (case orUndefined current of None \<Rightarrow> es | Some i \<Rightarrow> markFirst i es)"


text \<open>The test of the referrer block: the referrer parses and names another host.\<close>

definition externalReferrer :: "Env \<Rightarrow> bool" where
  "externalReferrer w =
     (doc_referrer w \<noteq> [] \<and>
      (case newURL w (doc_referrer w) of
         None \<Rightarrow> False
       | Some r \<Rightarrow> hostname r \<noteq> hostname (location w)))"

section \<open>Example inputs\<close>

definition example_page :: "string \<Rightarrow> string \<Rightarrow> (string \<times> string) list \<Rightarrow> URL" where
  "example_page h p ps =
     \<lparr>href = h, protocol = ''https:'', hostname = ''example.com'', port = [], pathname = p,
      searchParams = ps\<rparr>"

definition example_browser :: "URL \<Rightarrow> int \<Rightarrow> Env" where
  "example_browser u t =
     \<lparr>location = u, doc_referrer = [], doc_title = ''Shop'', newURL = (\<lambda>_. None), now = t,
      random = (\<lambda>i. i), setItem_events = (\<lambda>_. Stored), setItem_attribution = (\<lambda>_. Stored),
      setItem_user_id = (\<lambda>_. Stored), setItem_old_uuid = (\<lambda>_. Stored)\<rparr>"

definition home_browser :: Env where
  "home_browser = example_browser (example_page ''https://example.com/'' ''/'' []) 0"

definition quota_browser :: Env where
  "quota_browser = home_browser\<lparr>setItem_events := (\<lambda>_. QuotaExceededError)\<rparr>"


definition example_event :: "nat \<Rightarrow> PageViewEvent" where
  "example_event n =
     \<lparr>url = ''https://example.com/'', timestamp = int n, referrer = None, title = None,
      attribution = \<lparr>props = [(''landing_page'', ''/'')], attribution_timestamp = None\<rparr>,
      ev_uuid = ''device-1'', is_loggedin = False, event_id = replicate (Suc n) CHR ''e''\<rparr>"

definition example_storage :: Storage where
  "example_storage =
     \<lparr>ls_events = Absent, ls_user_id = None, ls_old_uuid = None, ls_attribution = Absent,
      cookie_uuid = Some ''device-1''\<rparr>"

definition example_tracker :: "nat \<Rightarrow> PageViewEvent list \<Rightarrow> Tracker" where
  "example_tracker n es =
     \<lparr>options = defaultOptions\<lparr>maxEvents := n\<rparr>, events = es, isInitialized = True,
      uuid = ''device-1'', derivUserId = None, isLoggedIn = False, oldUuid = None,
      lastTrackedUrl = [], currentPageEventId = None, storage = example_storage\<rparr>"

definition example_calls :: "(Env \<times> PageViewEvent) list" where
  "example_calls = map (\<lambda>n. (home_browser, example_event n)) [0..<4]"


definition example_trackerA :: "Tracker \<Rightarrow> int \<Rightarrow> AttributionData \<Rightarrow> TrackerA" where
  "example_trackerA t expiry a =
     \<lparr>options = options t, events = events t, isInitialized = isInitialized t, uuid = uuid t,
      derivUserId = derivUserId t, isLoggedIn = isLoggedIn t, oldUuid = oldUuid t,
      lastTrackedUrl = lastTrackedUrl t, currentPageEventId = currentPageEventId t,
      storage = storage t, attributionExpiry = expiry, currentAttribution = a, outbox = []\<rparr>"


definition campaign_event :: PageViewEvent where
  "campaign_event =
     (example_event 0)
       \<lparr>attribution := \<lparr>props = [(''utm_source'', ''google''), (''landing_page'', ''/'')],
                        attribution_timestamp = None\<rparr>\<rparr>"

definition campaign_browser :: Env where
  "campaign_browser =
     example_browser
       (example_page ''https://example.com/?utm_source=google&utm_medium=cpc'' ''/''
          [(''utm_source'', ''google''), (''utm_medium'', ''cpc'')]) 1000"

definition offers_url :: URL where
  "offers_url =
     \<lparr>href = ''http://example.com/offers'', protocol = ''http:'', hostname = ''example.com'',
      port = [], pathname = ''/offers'', searchParams = []\<rparr>"

definition partner_url :: URL where
  "partner_url =
     \<lparr>href = ''https://partner.test/'', protocol = ''https:'', hostname = ''partner.test'',
      port = [], pathname = ''/'', searchParams = []\<rparr>"

definition example_newURL :: "string \<Rightarrow> URL option" where
  "example_newURL s =
     (if s = href offers_url then Some offers_url
      else if s = href partner_url then Some partner_url
      else None)"

definition referred_browser :: "string \<Rightarrow> Env" where
  "referred_browser r = home_browser\<lparr>doc_referrer := r, newURL := example_newURL\<rparr>"

definition checkout_browser :: "int \<Rightarrow> Env" where
  "checkout_browser t =
     example_browser (example_page ''https://example.com/checkout'' ''/checkout'' []) t"

definition stale_attribution :: AttributionData where
  "stale_attribution =
     \<lparr>props = [(''utm_source'', ''bing''), (''utm_term'', ''shoes''), (''landing_page'', ''/old'')],
      attribution_timestamp = Some 5\<rparr>"

definition failing_attribution_write :: "Env \<Rightarrow> Env" where
  "failing_attribution_write w = w\<lparr>setItem_attribution := (\<lambda>_. QuotaExceededError)\<rparr>"

definition stored_attribution :: "AttributionData \<Rightarrow> Storage" where
  "stored_attribution a = example_storage\<lparr>ls_attribution := Json a\<rparr>"

text \<open>
  A page on which a visitor signs up, and the next page load: a new tracker on the
  storage the first one has left, initialised with \<^verbatim>\<open>init()\<close>.
\<close>

definition signup_page_B :: Tracker where
  "signup_page_B =
     stateAfter (recordSignup_B home_browser ''user-42''
       (init_B home_browser None None (constructor_B defaultOptions home_browser example_storage)))"

definition next_page_B :: "Storage \<Rightarrow> Tracker" where
  "next_page_B st =
     init_B (checkout_browser 60000) None None
       (constructor_B defaultOptions (checkout_browser 60000) st)"

definition signup_page_A :: TrackerA where
  "signup_page_A =
     stateAfter (recordSignup_A home_browser ''user-42''
       (init_A home_browser None None
          (constructor_A defaultOptions defaultAttributionExpiry home_browser example_storage)))"

definition next_page_A :: "Storage \<Rightarrow> TrackerA" where
  "next_page_A st =
     init_A (checkout_browser 60000) None None
       (constructor_A defaultOptions defaultAttributionExpiry (checkout_browser 60000) st)"

text \<open>
  A record captured at time 1700000000000, and a tracker constructed with the default
  options when that record is one second short of the end of its 30 days.
\<close>

definition november_attribution :: AttributionData where
  "november_attribution =
     \<lparr>props = [(''utm_source'', ''google''), (''utm_medium'', ''cpc''), (''landing_page'', ''/'')],
      attribution_timestamp = Some 1700000000000\<rparr>"

definition imported_tracker :: TrackerA where
  "imported_tracker =
     constructor_A defaultOptions defaultAttributionExpiry (checkout_browser 1702591999000)
       (stored_attribution november_attribution)"

definition example_heap :: heap where
  "example_heap = [Object (example_event 0), Object (example_event 1), Array [0, 1]]"

section \<open>The event log is bounded and keeps the most recent events\<close>

lemma length_lastN [simp]: "length (lastN n xs) = min n (length xs)"
  by (simp add: lastN_def)

lemma lastN_all: "length xs \<le> n \<Longrightarrow> lastN n xs = xs"
  by (simp add: lastN_def)

lemma suffix_lastN: "suffix (lastN n xs) xs"
  by (simp add: lastN_def suffix_drop)

lemma lastN_snoc: "lastN n (lastN n xs @ [e]) = lastN n (xs @ [e])"
proof (cases "length xs \<le> n")
  case True
  then show ?thesis by (simp add: lastN_all)
next
  case False
  then have *: "n < length xs" by simp
  show ?thesis
  proof (cases n)
    case 0
    then show ?thesis by (simp add: lastN_def)
  next
    case (Suc k)
    then have z: "Suc 0 - n = 0" by simp
    have "lastN n (lastN n xs @ [e]) = drop (Suc 0) (drop (length xs - n) xs @ [e])"
      using * Suc by (simp add: lastN_def del: drop_append)
    also have "\<dots> = drop (Suc (length xs - n)) xs @ [e]"
      using * z by simp
    also have "\<dots> = lastN n (xs @ [e])"
      using * z by (simp add: lastN_def Suc_diff_le)
    finally show ?thesis .
  qed
qed

text \<open>\<^verbatim>\<open>saveEvents\<close> calls itself at most once: the second log has 10 events.\<close>

lemma saveEvents_unfold:
  "saveEvents w s =
     (if setItem_events w (events s) = Stored
      then s\<lparr>storage := (storage s)\<lparr>ls_events := Json (events s)\<rparr>\<rparr>
      else if setItem_events w (events s) = QuotaExceededError \<and> 10 < length (events s)
        then (let es = lastN 10 (events s) in
              if setItem_events w es = Stored
              then s\<lparr>events := es, storage := (storage s)\<lparr>ls_events := Json es\<rparr>\<rparr>
              else s\<lparr>events := es\<rparr>)
      else s)"
proof -
  let ?s' = "s\<lparr>events := drop (length (events s) - 10) (events s)\<rparr>"
  have trunc: "10 < length (events s) \<Longrightarrow> \<not> 10 < length (events ?s')"
    by simp
  have inner: "10 < length (events s) \<Longrightarrow>
      saveEvents w ?s' =
        (if setItem_events w (events ?s') = Stored
         then ?s'\<lparr>storage := (storage ?s')\<lparr>ls_events := Json (events ?s')\<rparr>\<rparr> else ?s')"
    using trunc by (subst saveEvents.simps) simp
  show ?thesis
    by (subst saveEvents.simps) (simp add: inner Let_def lastN_def)
qed

lemma saveEvents_events:
  "events (saveEvents w s) =
     (if setItem_events w (events s) = QuotaExceededError \<and> 10 < length (events s)
      then lastN 10 (events s) else events s)"
  by (simp add: saveEvents_unfold Let_def)

lemma saveEvents_options [simp]: "options (saveEvents w s) = options s"
  by (simp add: saveEvents_unfold Let_def)

lemma addEvent_alt:
  "addEvent w e s = saveEvents w (s\<lparr>events := lastN (maxEvents (options s)) (events s @ [e])\<rparr>)"
proof (cases "maxEvents (options s) < length (events s @ [e])")
  case True
  then show ?thesis by (simp add: addEvent_def Let_def lastN_def del: drop_append)
next
  case False
  then have "lastN (maxEvents (options s)) (events s @ [e]) = events s @ [e]"
    by (intro lastN_all) simp
  with False show ?thesis by (simp add: addEvent_def Let_def del: drop_append)
qed

lemma addEvent_events:
  "events (addEvent w e s) =
     (let es = lastN (maxEvents (options s)) (events s @ [e])
      in if setItem_events w es = QuotaExceededError \<and> 10 < length es then lastN 10 es else es)"
  by (simp add: addEvent_alt saveEvents_events Let_def)

lemma addEvent_options [simp]: "options (addEvent w e s) = options s"
  by (simp add: addEvent_alt)

lemma addEvent_length: "length (events (addEvent w e s)) \<le> maxEvents (options s)"
  by (simp add: addEvent_events Let_def)

lemma addEvent_suffix: "suffix (events (addEvent w e s)) (events s @ [e])"
proof -
  let ?es = "lastN (maxEvents (options s)) (events s @ [e])"
  have a: "suffix ?es (events s @ [e])"
    by (rule suffix_lastN)
  have b: "suffix (lastN 10 ?es) (events s @ [e])"
    using suffix_lastN [of 10 ?es] a by (rule suffix_order.trans)
  have "events (addEvent w e s) = ?es \<or> events (addEvent w e s) = lastN 10 ?es"
    by (simp add: addEvent_events Let_def)
  then show ?thesis
    using a b by (elim disjE) (simp_all only:)
qed

lemma addEvent_exact:
  "quotaFree w \<or> maxEvents (options s) \<le> 10 \<Longrightarrow>
   events (addEvent w e s) = lastN (maxEvents (options s)) (events s @ [e])"
  by (auto simp add: addEvent_events Let_def quotaFree_def)

lemma appendAll_snoc [simp]: "appendAll s (calls @ [(w, e)]) = addEvent w e (appendAll s calls)"
  by (simp add: appendAll_def)

lemma appendAll_Nil [simp]: "appendAll s [] = s"
  by (simp add: appendAll_def)

lemma appendAll_options [simp]: "options (appendAll s calls) = options s"
proof (induction calls rule: rev_induct)
  case Nil
  show ?case by simp
next
  case (snoc c calls)
  then show ?case by (cases c) simp
qed

lemma appendAll_length:
  "calls \<noteq> [] \<Longrightarrow> length (events (appendAll s calls)) \<le> maxEvents (options s)"
proof (cases calls rule: rev_cases)
  case Nil
  assume "calls \<noteq> []"
  with Nil show ?thesis by simp
next
  case (snoc cs c)
  obtain w e where c: "c = (w, e)" by (cases c)
  show ?thesis
    using addEvent_length [of w e "appendAll s cs"] by (simp add: snoc c)
qed

lemma appendAll_suffix: "suffix (events (appendAll s calls)) (events s @ map snd calls)"
proof (induction calls rule: rev_induct)
  case Nil
  show ?case by simp
next
  case (snoc c calls)
  obtain w e where c: "c = (w, e)" by (cases c)
  from snoc.IH obtain zs where zs: "events s @ map snd calls = zs @ events (appendAll s calls)"
    by (auto simp: suffix_def)
  have "suffix (events (appendAll s calls) @ [e]) (events s @ map snd (calls @ [c]))"
    unfolding suffix_def using zs by (intro exI [of _ zs]) (simp add: c)
  with addEvent_suffix [of w e "appendAll s calls"] show ?case
    unfolding c appendAll_snoc by (rule suffix_order.trans)
qed

lemma appendAll_exact:
  "calls \<noteq> [] \<Longrightarrow> (\<forall>c \<in> set calls. quotaFree (fst c)) \<or> maxEvents (options s) \<le> 10 \<Longrightarrow>
   events (appendAll s calls) = lastN (maxEvents (options s)) (events s @ map snd calls)"
proof (induction calls rule: rev_induct)
  case Nil
  then show ?case by simp
next
  case (snoc c calls)
  obtain w e where c: "c = (w, e)" by (cases c)
  have q: "quotaFree w \<or> maxEvents (options s) \<le> 10"
    using snoc.prems(2) by (auto simp: c)
  have step: "events (appendAll s (calls @ [c])) =
      lastN (maxEvents (options s)) (events (appendAll s calls) @ [e])"
    using q addEvent_exact [of w "appendAll s calls" e] by (simp add: c)
  show ?case
  proof (cases "calls = []")
    case True
    then show ?thesis using step by (simp add: c)
  next
    case False
    then have IH: "events (appendAll s calls) =
      lastN (maxEvents (options s)) (events s @ map snd calls)"
      using snoc.IH snoc.prems(2) by auto
    show ?thesis
      unfolding step IH by (simp add: lastN_snoc c)
  qed
qed

text \<open>Variant A appends the same events; it only sends them as well.\<close>

lemma addEvent_A_events [simp]: "events (addEvent_A w e s) = events (addEvent w e s)"
  by (simp add: addEvent_A_def sendEventToBackend_def)

lemma addEvent_A_options [simp]: "options (addEvent_A w e s) = options s"
  by (simp add: addEvent_A_def sendEventToBackend_def)

lemma appendAll_A_same:
  "events (appendAll_A s calls) = events (appendAll s calls) \<and>
   options (appendAll_A s calls) = options s"
proof (induction calls rule: rev_induct)
  case Nil
  show ?case by (simp add: appendAll_A_def)
next
  case (snoc c calls)
  obtain w e where c: "c = (w, e)" by (cases c)
  have "appendAll_A s (calls @ [c]) = addEvent_A w e (appendAll_A s calls)"
    by (simp add: appendAll_A_def c)
  then show ?case
    using snoc.IH by (simp add: c addEvent_events)
qed

text \<open>
  C1 (amended). After every non-empty sequence of \<^verbatim>\<open>addEvent\<close> calls (so after each
  call of a longer sequence) the log holds at most \<open>maxEvents\<close> events, and they are the
  most recently appended ones in their original order: a suffix of the earlier log
  followed by the appended events. When no write to storage fails for lack of quota (or
  \<open>maxEvents\<close> is at most 10) they are exactly the \<open>maxEvents\<close> most recent. Each
  append leaves exactly this log: the \<open>maxEvents\<close> most recent events of the log before
  it and the new event; but when the write of these fails with a quota error and they
  are more than 10, the 10 most recent of them. Variant A keeps the same log.
\<close>

theorem C1_log_bounded_most_recent:
  assumes "calls \<noteq> []"
  shows "length (events (appendAll s calls)) \<le> maxEvents (options s) \<and>
         suffix (events (appendAll s calls)) (events s @ map snd calls) \<and>
         ((\<forall>c \<in> set calls. quotaFree (fst c)) \<or> maxEvents (options s) \<le> 10 \<longrightarrow>
            events (appendAll s calls) =
              lastN (maxEvents (options s)) (events s @ map snd calls)) \<and>
         events (appendAll s (prior @ [(w, e)])) =
           (let es = lastN (maxEvents (options s)) (events (appendAll s prior) @ [e])
            in if setItem_events w es = QuotaExceededError \<and> 10 < length es
               then lastN 10 es else es) \<and>
         events (appendAll_A sa calls) = events (appendAll sa calls)"
proof -
  have "events (appendAll s (prior @ [(w, e)])) =
           (let es = lastN (maxEvents (options s)) (events (appendAll s prior) @ [e])
            in if setItem_events w es = QuotaExceededError \<and> 10 < length es
               then lastN 10 es else es)"
    using addEvent_events [of w e "appendAll s prior"] by simp
  then show ?thesis
    using assms appendAll_length [of calls s] appendAll_suffix [of s calls]
      appendAll_exact [of calls s] appendAll_A_same [of sa calls]
    by blast
qed

theorem C1_witness:
  "example_calls \<noteq> [] \<and> quotaFree home_browser \<and>
   events (appendAll (example_tracker 3 []) example_calls) =
     [example_event 1, example_event 2, example_event 3]"
proof -
  have ne: "example_calls \<noteq> []"
    by (simp add: example_calls_def upt_rec)
  have q: "quotaFree home_browser"
    by (simp add: quotaFree_def home_browser_def example_browser_def)
  then have all: "\<forall>c \<in> set example_calls. quotaFree (fst c)"
    by (simp add: example_calls_def)
  have "events (appendAll (example_tracker 3 []) example_calls) =
          lastN (maxEvents (options (example_tracker 3 [])))
            (events (example_tracker 3 []) @ map snd example_calls)"
    using C1_log_bounded_most_recent [OF ne, where s = "example_tracker 3 []"] all by blast
  also have "lastN (maxEvents (options (example_tracker 3 [])))
            (events (example_tracker 3 []) @ map snd example_calls) =
          [example_event 1, example_event 2, example_event 3]"
    by code_simp
  finally show ?thesis using ne q by simp
qed

text \<open>
  C1 as stated fails when a write hits the quota: with \<open>maxEvents = 11\<close> and a log of 11
  events, the next append discards the oldest event, the write fails, and the log is cut
  to its last 10 events, which are not the 11 most recent.
\<close>

theorem C1_counterexample:
  "maxEvents (options (example_tracker 11 (map example_event [0..<11]))) = 11 \<and>
   events (appendAll (example_tracker 11 (map example_event [0..<11]))
             [(quota_browser, example_event 11)]) = map example_event [2..<12] \<and>
   lastN 11 (map example_event [0..<11] @ [example_event 11]) = map example_event [1..<12]"
  by code_simp

section \<open>Frame properties of the operations\<close>

lemma saveEvents_frame [simp]:
  "uuid (saveEvents w s) = uuid s"
  "oldUuid (saveEvents w s) = oldUuid s"
  "derivUserId (saveEvents w s) = derivUserId s"
  "isLoggedIn (saveEvents w s) = isLoggedIn s"
  "lastTrackedUrl (saveEvents w s) = lastTrackedUrl s"
  "currentPageEventId (saveEvents w s) = currentPageEventId s"
  "isInitialized (saveEvents w s) = isInitialized s"
  "Tracker.more (saveEvents w s) = Tracker.more s"
  by (simp_all add: saveEvents_unfold Let_def)

lemma saveEvents_storage [simp]:
  "ls_user_id (storage (saveEvents w s)) = ls_user_id (storage s)"
  "ls_old_uuid (storage (saveEvents w s)) = ls_old_uuid (storage s)"
  "ls_attribution (storage (saveEvents w s)) = ls_attribution (storage s)"
  "cookie_uuid (storage (saveEvents w s)) = cookie_uuid (storage s)"
  by (simp_all add: saveEvents_unfold Let_def)

lemma saveEvents_frame_A [simp]:
  "currentAttribution (saveEvents w s) = currentAttribution s"
  "attributionExpiry (saveEvents w s) = attributionExpiry s"
  "outbox (saveEvents w s) = outbox s"
  by (simp_all add: saveEvents_unfold Let_def)

lemma length_markFirst [simp]: "length (markFirst i es) = length es"
  by (induction es) auto

lemma findIndex_markFirst:
  "(case findIndex (\<lambda>e. event_id e = i) es of
      None \<Rightarrow> es
    | Some k \<Rightarrow> es[k := (es ! k)\<lparr>is_loggedin := True\<rparr>]) = markFirst i es"
  by (induction es) (auto split: option.splits)

lemma updateEventLoginState_frame [simp]:
  "options (updateEventLoginState w i b s) = options s"
  "uuid (updateEventLoginState w i b s) = uuid s"
  "oldUuid (updateEventLoginState w i b s) = oldUuid s"
  "derivUserId (updateEventLoginState w i b s) = derivUserId s"
  "isLoggedIn (updateEventLoginState w i b s) = isLoggedIn s"
  "lastTrackedUrl (updateEventLoginState w i b s) = lastTrackedUrl s"
  "currentPageEventId (updateEventLoginState w i b s) = currentPageEventId s"
  "isInitialized (updateEventLoginState w i b s) = isInitialized s"
  "Tracker.more (updateEventLoginState w i b s) = Tracker.more s"
  by (simp_all add: updateEventLoginState_def split: option.splits)

lemma updateEventLoginState_frame_A [simp]:
  "currentAttribution (updateEventLoginState w i b s) = currentAttribution s"
  "attributionExpiry (updateEventLoginState w i b s) = attributionExpiry s"
  "outbox (updateEventLoginState w i b s) = outbox s"
  by (simp_all add: updateEventLoginState_def split: option.splits)

lemma updateEventLoginState_events:
  "quotaFree w \<or> length (events s) \<le> 10 \<Longrightarrow>
   events (updateEventLoginState w i True s) = markFirst i (events s)"
proof -
  assume q: "quotaFree w \<or> length (events s) \<le> 10"
  show ?thesis
  proof (cases "findIndex (\<lambda>e. event_id e = i) (events s)")
    case None
    then show ?thesis
      using findIndex_markFirst [where i = i and es = "events s"] by (simp add: updateEventLoginState_def)
  next
    case (Some k)
    then have m: "(events s)[k := (events s ! k)\<lparr>is_loggedin := True\<rparr>] = markFirst i (events s)"
      using findIndex_markFirst [where i = i and es = "events s"] by simp
    show ?thesis
      using q by (auto simp add: updateEventLoginState_def Some m saveEvents_events quotaFree_def)
  qed
qed

lemma updateCurrentEvent_frame [simp]:
  "options (updateCurrentEvent w b s) = options s"
  "uuid (updateCurrentEvent w b s) = uuid s"
  "oldUuid (updateCurrentEvent w b s) = oldUuid s"
  "derivUserId (updateCurrentEvent w b s) = derivUserId s"
  "isLoggedIn (updateCurrentEvent w b s) = isLoggedIn s"
  "lastTrackedUrl (updateCurrentEvent w b s) = lastTrackedUrl s"
  "currentPageEventId (updateCurrentEvent w b s) = currentPageEventId s"
  "isInitialized (updateCurrentEvent w b s) = isInitialized s"
  "Tracker.more (updateCurrentEvent w b s) = Tracker.more s"
  by (simp_all add: updateCurrentEvent_def split: option.splits)

lemma updateCurrentEvent_events:
  "quotaFree w \<or> length (events s) \<le> 10 \<Longrightarrow>
   events (updateCurrentEvent w True s) = markCurrent (currentPageEventId s) (events s)"
  by (simp add: updateCurrentEvent_def markCurrent_def updateEventLoginState_events split: option.splits)

lemma sendEventToBackend_frame [simp]:
  "events (sendEventToBackend w e s) = events s"
  "options (sendEventToBackend w e s) = options s"
  "uuid (sendEventToBackend w e s) = uuid s"
  "oldUuid (sendEventToBackend w e s) = oldUuid s"
  "derivUserId (sendEventToBackend w e s) = derivUserId s"
  "isLoggedIn (sendEventToBackend w e s) = isLoggedIn s"
  "lastTrackedUrl (sendEventToBackend w e s) = lastTrackedUrl s"
  "currentPageEventId (sendEventToBackend w e s) = currentPageEventId s"
  "isInitialized (sendEventToBackend w e s) = isInitialized s"
  "storage (sendEventToBackend w e s) = storage s"
  "currentAttribution (sendEventToBackend w e s) = currentAttribution s"
  "attributionExpiry (sendEventToBackend w e s) = attributionExpiry s"
  by (simp_all add: sendEventToBackend_def)

lemma updateAndSendCurrentEvent_frame [simp]:
  "events (updateAndSendCurrentEvent w b s) = events (updateCurrentEvent w b s)"
  "options (updateAndSendCurrentEvent w b s) = options s"
  "uuid (updateAndSendCurrentEvent w b s) = uuid s"
  "oldUuid (updateAndSendCurrentEvent w b s) = oldUuid s"
  "derivUserId (updateAndSendCurrentEvent w b s) = derivUserId s"
  "isLoggedIn (updateAndSendCurrentEvent w b s) = isLoggedIn s"
  "lastTrackedUrl (updateAndSendCurrentEvent w b s) = lastTrackedUrl s"
  "currentPageEventId (updateAndSendCurrentEvent w b s) = currentPageEventId s"
  "isInitialized (updateAndSendCurrentEvent w b s) = isInitialized s"
  "currentAttribution (updateAndSendCurrentEvent w b s) = currentAttribution s"
  "attributionExpiry (updateAndSendCurrentEvent w b s) = attributionExpiry s"
  by (simp_all add: updateAndSendCurrentEvent_def updateCurrentEvent_def Let_def split: option.splits)

lemma clearEvents_frame [simp]:
  "events (clearEvents s) = []"
  "options (clearEvents s) = options s"
  "uuid (clearEvents s) = uuid s"
  "oldUuid (clearEvents s) = oldUuid s"
  "derivUserId (clearEvents s) = derivUserId s"
  "isLoggedIn (clearEvents s) = isLoggedIn s"
  "lastTrackedUrl (clearEvents s) = lastTrackedUrl s"
  "currentPageEventId (clearEvents s) = currentPageEventId s"
  "isInitialized (clearEvents s) = isInitialized s"
  "Tracker.more (clearEvents s) = Tracker.more s"
  by (simp_all add: clearEvents_def)


lemma addEvent_frame [simp]:
  "uuid (addEvent w e s) = uuid s"
  "oldUuid (addEvent w e s) = oldUuid s"
  "derivUserId (addEvent w e s) = derivUserId s"
  "isLoggedIn (addEvent w e s) = isLoggedIn s"
  "lastTrackedUrl (addEvent w e s) = lastTrackedUrl s"
  "currentPageEventId (addEvent w e s) = currentPageEventId s"
  "isInitialized (addEvent w e s) = isInitialized s"
  "Tracker.more (addEvent w e s) = Tracker.more s"
  by (simp_all add: addEvent_alt)

lemma addEvent_frame_A [simp]:
  "currentAttribution (addEvent w e s) = currentAttribution s"
  "attributionExpiry (addEvent w e s) = attributionExpiry s"
  "outbox (addEvent w e s) = outbox s"
  by (simp_all add: addEvent_alt)

lemma recordLogin_B_frame [simp]:
  "uuid (stateAfter (recordLogin_B w u s)) = uuid s"
  "oldUuid (stateAfter (recordLogin_B w u s)) = oldUuid s"
  "options (stateAfter (recordLogin_B w u s)) = options s"
  by (simp_all add: recordLogin_B_def storeUserId_def Let_def)

lemma recordLogin_A_frame [simp]:
  "uuid (stateAfter (recordLogin_A w u s)) = uuid s"
  "oldUuid (stateAfter (recordLogin_A w u s)) = oldUuid s"
  "options (stateAfter (recordLogin_A w u s)) = options s"
  by (simp_all add: recordLogin_A_def storeUserId_def Let_def)

lemma recordSignup_B_frame [simp]:
  "uuid (stateAfter (recordSignup_B w u s)) = uuid s"
  "oldUuid (stateAfter (recordSignup_B w u s)) = Some (uuid s)"
  "options (stateAfter (recordSignup_B w u s)) = options s"
  by (simp_all add: recordSignup_B_def storeUserId_def storeOldUuid_def Let_def
      split: option.splits)

lemma recordSignup_A_frame [simp]:
  "uuid (stateAfter (recordSignup_A w u s)) = uuid s"
  "oldUuid (stateAfter (recordSignup_A w u s)) = Some (uuid s)"
  "options (stateAfter (recordSignup_A w u s)) = options s"
  by (simp_all add: recordSignup_A_def storeUserId_def storeOldUuid_def Let_def
      split: option.splits)

lemma updateLoginState_B_frame [simp]:
  "uuid (stateAfter (updateLoginState_B w b u s)) = uuid s"
  "oldUuid (stateAfter (updateLoginState_B w b u s)) = oldUuid s"
  by (simp_all add: updateLoginState_B_def storeUserId_def Let_def split: option.splits)

lemma updateLoginState_A_frame [simp]:
  "uuid (stateAfter (updateLoginState_A w b u s)) = uuid s"
  "oldUuid (stateAfter (updateLoginState_A w b u s)) = oldUuid s"
  by (simp_all add: updateLoginState_A_def storeUserId_def Let_def split: option.splits)

lemma trackCurrentPageView_B_frame [simp]:
  "uuid (trackCurrentPageView_B w s) = uuid s"
  "oldUuid (trackCurrentPageView_B w s) = oldUuid s"
  by (simp_all add: trackCurrentPageView_B_def Let_def)

lemma saveAttributionData_frame [simp]:
  "uuid (saveAttributionData w s) = uuid s"
  "oldUuid (saveAttributionData w s) = oldUuid s"
  "events (saveAttributionData w s) = events s"
  "options (saveAttributionData w s) = options s"
  "isLoggedIn (saveAttributionData w s) = isLoggedIn s"
  "currentAttribution (saveAttributionData w s) = currentAttribution s"
  by (simp_all add: saveAttributionData_def)

lemma getAttributionForPageView_frame [simp]:
  "uuid (snd (getAttributionForPageView w s)) = uuid s"
  "oldUuid (snd (getAttributionForPageView w s)) = oldUuid s"
  "events (snd (getAttributionForPageView w s)) = events s"
  "options (snd (getAttributionForPageView w s)) = options s"
  "isLoggedIn (snd (getAttributionForPageView w s)) = isLoggedIn s"
  by (simp_all add: getAttributionForPageView_def Let_def)

lemma trackCurrentPageView_A_frame [simp]:
  "uuid (trackCurrentPageView_A w s) = uuid s"
  "oldUuid (trackCurrentPageView_A w s) = oldUuid s"
proof -
  let ?s1 = "s\<lparr>lastTrackedUrl := href (location w)\<rparr>"
  obtain a s2 where g: "getAttributionForPageView w ?s1 = (a, s2)"
    by (cases "getAttributionForPageView w ?s1")
  have "uuid s2 = uuid s" "oldUuid s2 = oldUuid s"
    using getAttributionForPageView_frame(1,2) [of w ?s1] by (simp_all add: g)
  then show "uuid (trackCurrentPageView_A w s) = uuid s"
    "oldUuid (trackCurrentPageView_A w s) = oldUuid s"
    by (simp_all add: trackCurrentPageView_A_def Let_def addEvent_A_def g)
qed

lemma loadEvents_frame [simp]:
  "uuid (loadEvents s) = uuid s"
  "oldUuid (loadEvents s) = oldUuid s"
  "options (loadEvents s) = options s"
  by (simp_all add: loadEvents_def split: item.splits)

lemma initIdentity_frame [simp]:
  "uuid (initIdentity b u s) = uuid s"
  "oldUuid (initIdentity b u s) = oldUuid s"
  "options (initIdentity b u s) = options s"
  by (simp_all add: initIdentity_def Let_def split: option.splits)

lemma loadAttributionData_frame [simp]:
  "uuid (loadAttributionData w s) = uuid s"
  "oldUuid (loadAttributionData w s) = oldUuid s"
  "events (loadAttributionData w s) = events s"
  "options (loadAttributionData w s) = options s"
  by (simp_all add: loadAttributionData_def split: item.splits option.splits)

lemma run_B_uuid [simp]: "uuid (run_B s c) = uuid s"
proof -
  obtain w k where c: "c = (w, k)" by (cases c)
  show ?thesis
    unfolding c
    by (cases k) (simp_all add: init_B_def Let_def trackPageView_B_def onNavigation_B_def)
qed

lemma run_A_uuid [simp]: "uuid (run_A s c) = uuid s"
proof -
  obtain w k where c: "c = (w, k)" by (cases c)
  show ?thesis
    unfolding c by (cases k) (simp_all add: init_A_def Let_def trackPageView_A_def)
qed

lemma run_B_oldUuid: "oldUuid s = Some (uuid s) \<Longrightarrow> oldUuid (run_B s c) = Some (uuid s)"
proof -
  assume o: "oldUuid s = Some (uuid s)"
  obtain w k where c: "c = (w, k)" by (cases c)
  show ?thesis
    using o unfolding c
    by (cases k) (simp_all add: init_B_def Let_def trackPageView_B_def onNavigation_B_def)
qed

lemma run_A_oldUuid: "oldUuid s = Some (uuid s) \<Longrightarrow> oldUuid (run_A s c) = Some (uuid s)"
proof -
  assume o: "oldUuid s = Some (uuid s)"
  obtain w k where c: "c = (w, k)" by (cases c)
  show ?thesis
    using o unfolding c by (cases k) (simp_all add: init_A_def Let_def trackPageView_A_def)
qed

lemma runAll_B_uuid [simp]: "uuid (foldl run_B s calls) = uuid s"
  by (induction calls arbitrary: s) simp_all

lemma runAll_A_uuid [simp]: "uuid (foldl run_A s calls) = uuid s"
  by (induction calls arbitrary: s) simp_all

lemma runAll_B_oldUuid:
  "oldUuid s = Some (uuid s) \<Longrightarrow> oldUuid (foldl run_B s calls) = Some (uuid s)"
proof (induction calls arbitrary: s)
  case Nil
  then show ?case by simp
next
  case (Cons c calls)
  from Cons.prems have "oldUuid (run_B s c) = Some (uuid (run_B s c))"
    by (simp add: run_B_oldUuid)
  from Cons.IH [OF this] show ?case by simp
qed

lemma runAll_A_oldUuid:
  "oldUuid s = Some (uuid s) \<Longrightarrow> oldUuid (foldl run_A s calls) = Some (uuid s)"
proof (induction calls arbitrary: s)
  case Nil
  then show ?case by simp
next
  case (Cons c calls)
  from Cons.prems have "oldUuid (run_A s c) = Some (uuid (run_A s c))"
    by (simp add: run_A_oldUuid)
  from Cons.IH [OF this] show ?case by simp
qed

lemma exportJourney_old_uuid:
  "oldUuid s = Some u \<Longrightarrow> u \<noteq> [] \<Longrightarrow> old_uuid (exportJourney s) = Some u"
  by (simp add: exportJourney_def orUndefined_def)

lemma markCurrent_only_flag:
  "length (markCurrent c es) = length es \<and>
   (\<forall>k < length es.
      markCurrent c es ! k = es ! k \<or>
      (markCurrent c es ! k = (es ! k)\<lparr>is_loggedin := True\<rparr> \<and> c = Some (event_id (es ! k))))"
proof -
  have m: "\<And>i. \<forall>k < length es.
      markFirst i es ! k = es ! k \<or>
      (markFirst i es ! k = (es ! k)\<lparr>is_loggedin := True\<rparr> \<and> i = event_id (es ! k))"
  proof (induction es)
    case Nil
    show ?case by simp
  next
    case (Cons e es)
    show ?case
    proof (intro allI impI)
      fix k assume "k < length (e # es)"
      then show "markFirst i (e # es) ! k = (e # es) ! k \<or>
        (markFirst i (e # es) ! k = ((e # es) ! k)\<lparr>is_loggedin := True\<rparr> \<and> i = event_id ((e # es) ! k))"
        using Cons.IH [of i] by (cases k) auto
    qed
  qed
  show ?thesis
    using m by (auto simp: markCurrent_def orUndefined_def split: option.splits if_splits)
qed






text \<open>
  A call that raises has made its assignments and nothing else: the log and the storage
  are as before, whatever the reset option.
\<close>

lemma recordLogin_raises:
  "setItem_user_id w u \<noteq> Stored \<Longrightarrow>
   recordLogin_B w u s = Raised (s\<lparr>isLoggedIn := True, derivUserId := Some u\<rparr>)"
  "setItem_user_id w u \<noteq> Stored \<Longrightarrow>
   recordLogin_A w u sa = Raised (sa\<lparr>isLoggedIn := True, derivUserId := Some u\<rparr>)"
  by (simp_all add: recordLogin_B_def recordLogin_A_def storeUserId_def)

lemma recordSignup_raises:
  "setItem_user_id w u \<noteq> Stored \<Longrightarrow>
   recordSignup_B w u s =
     Raised (s\<lparr>oldUuid := Some (uuid s), isLoggedIn := True, derivUserId := Some u\<rparr>)"
  "setItem_user_id w u \<noteq> Stored \<Longrightarrow>
   recordSignup_A w u sa =
     Raised (sa\<lparr>oldUuid := Some (uuid sa), isLoggedIn := True, derivUserId := Some u\<rparr>)"
  by (simp_all add: recordSignup_B_def recordSignup_A_def storeUserId_def)








text \<open>The device identifier of a new tracker is not empty.\<close>

lemma length_fillTemplate: "length (fillTemplate rnd i cs) = length cs"
  by (induction cs arbitrary: i) (auto simp: Let_def)

lemma generateUUID_length: "length (generateUUID w) = 36"
  by (simp add: generateUUID_def length_fillTemplate)

lemma generateUUID_nonempty: "generateUUID w \<noteq> []"
  using generateUUID_length [of w] by auto

lemma getOrCreateUUID_nonempty: "fst (getOrCreateUUID w st) \<noteq> []"
  by (auto simp: getOrCreateUUID_def orUndefined_def generateUUID_nonempty split: option.splits if_splits)

lemma constructor_uuid_nonempty:
  "uuid (constructor_B opts w st) \<noteq> [] \<and> uuid (constructor_A opts expiry w st) \<noteq> []"
  using getOrCreateUUID_nonempty [of w st]
  by (auto simp add: constructor_B_def constructor_A_def split: prod.splits)

text \<open>
  \<^verbatim>\<open>recordSignup\<close>, in both variants, sets the prior device identifier to the device
  identifier in effect before the call, whatever the prior identifier was and whether
  the call returns or raises. On the tracker object that was made by the constructor and
  used through any calls, \<^verbatim>\<open>exportJourney\<close> returns that value as \<^verbatim>\<open>old_uuid\<close> after the
  call and after any later calls: the device identifier is not empty and no method
  assigns it. Before any signup the same object exports no \<^verbatim>\<open>old_uuid\<close>.
\<close>

lemma signup_prior_identifier_same_tracker:
  fixes s :: "'a Tracker_scheme" and sa :: TrackerA
  shows
  "oldUuid (stateAfter (recordSignup_B w u s)) = Some (uuid s) \<and>
   oldUuid (stateAfter (recordSignup_A w u sa)) = Some (uuid sa) \<and>
   old_uuid (exportJourney
      (foldl run_B (stateAfter (recordSignup_B w u (foldl run_B (constructor_B opts w0 st) before)))
         later))
     = Some (uuid (foldl run_B (constructor_B opts w0 st) before)) \<and>
   old_uuid (exportJourney
      (foldl run_A (stateAfter (recordSignup_A w u (foldl run_A (constructor_A opts expiry w0 st) before)))
         later))
     = Some (uuid (foldl run_A (constructor_A opts expiry w0 st) before)) \<and>
   old_uuid (exportJourney (constructor_B opts w0 st)) = None \<and>
   old_uuid (exportJourney (constructor_A opts expiry w0 st)) = None"
proof -
  let ?b = "foldl run_B (constructor_B opts w0 st) before"
  let ?a = "foldl run_A (constructor_A opts expiry w0 st) before"
  have nb: "uuid ?b \<noteq> []" and na: "uuid ?a \<noteq> []"
    using constructor_uuid_nonempty [of opts w0 st expiry] by simp_all
  have "oldUuid (foldl run_B (stateAfter (recordSignup_B w u ?b)) later) = Some (uuid ?b)"
    using runAll_B_oldUuid [of "stateAfter (recordSignup_B w u ?b)" later] by simp
  then have b: "old_uuid (exportJourney (foldl run_B (stateAfter (recordSignup_B w u ?b)) later))
      = Some (uuid ?b)"
    using nb by (rule exportJourney_old_uuid)
  have "oldUuid (foldl run_A (stateAfter (recordSignup_A w u ?a)) later) = Some (uuid ?a)"
    using runAll_A_oldUuid [of "stateAfter (recordSignup_A w u ?a)" later] by simp
  then have a: "old_uuid (exportJourney (foldl run_A (stateAfter (recordSignup_A w u ?a)) later))
      = Some (uuid ?a)"
    using na by (rule exportJourney_old_uuid)
  have n: "old_uuid (exportJourney (constructor_B opts w0 st)) = None"
    "old_uuid (exportJourney (constructor_A opts expiry w0 st)) = None"
    by (simp_all add: exportJourney_def orUndefined_def constructor_B_def constructor_A_def
        split: prod.splits)
  show ?thesis
    using a b n by simp
qed

text \<open>
  The prior identifier lives in the tracker object: a tracker constructed later, on
  another page load, starts without it, whatever the storage holds, and no method
  reads the entry \<^verbatim>\<open>user_journey_history_old_uuid\<close>.
\<close>

lemma constructor_oldUuid:
  "oldUuid (constructor_B opts w st) = None \<and> oldUuid (constructor_A opts expiry w st) = None"
  by (simp add: constructor_B_def constructor_A_def split: prod.splits)

text \<open>
  C6. A visitor with the device identifier \<^verbatim>\<open>device-1\<close> signs up. On that page the
  prior device identifier is \<^verbatim>\<open>device-1\<close>, \<^verbatim>\<open>exportJourney\<close> returns it, and it is written
  to storage beside the user identifier. On the next page load \<^verbatim>\<open>init\<close> restores the
  user identifier from storage, but not the prior device identifier: \<^verbatim>\<open>exportJourney\<close>
  has no \<^verbatim>\<open>old_uuid\<close>, although the entry is still in storage. The same holds when the
  cookie is gone and the device identifier has changed. Both variants.
\<close>

theorem C6_prior_identifier_not_restored:
  "returns (recordSignup_B home_browser ''user-42''
     (init_B home_browser None None (constructor_B defaultOptions home_browser example_storage))) \<and>
   old_uuid (exportJourney signup_page_B) = Some ''device-1'' \<and>
   ls_old_uuid (storage signup_page_B) = Some ''device-1'' \<and>
   ls_user_id (storage signup_page_B) = Some ''user-42'' \<and>
   j_uuid (exportJourney (next_page_B (storage signup_page_B))) = ''device-1'' \<and>
   deriv_user_id (exportJourney (next_page_B (storage signup_page_B))) = Some ''user-42'' \<and>
   ls_old_uuid (storage (next_page_B (storage signup_page_B))) = Some ''device-1'' \<and>
   old_uuid (exportJourney (next_page_B (storage signup_page_B))) = None \<and>
   j_uuid (exportJourney (next_page_B ((storage signup_page_B)\<lparr>cookie_uuid := None\<rparr>)))
     \<noteq> ''device-1'' \<and>
   old_uuid (exportJourney (next_page_B ((storage signup_page_B)\<lparr>cookie_uuid := None\<rparr>))) = None \<and>
   old_uuid (exportJourney signup_page_A) = Some ''device-1'' \<and>
   ls_old_uuid (storage signup_page_A) = Some ''device-1'' \<and>
   deriv_user_id (exportJourney (next_page_A (storage signup_page_A))) = Some ''user-42'' \<and>
   old_uuid (exportJourney (next_page_A (storage signup_page_A))) = None \<and>
   j_uuid (exportJourney (next_page_A ((storage signup_page_A)\<lparr>cookie_uuid := None\<rparr>)))
     \<noteq> ''device-1'' \<and>
   old_uuid (exportJourney (next_page_A ((storage signup_page_A)\<lparr>cookie_uuid := None\<rparr>))) = None"
  by code_simp

text \<open>
  C10. \<^verbatim>\<open>clearEvents\<close> empties the log and removes its stored copy; every other
  field of the tracker, in both variants, and every other entry of the storage is as
  before.
\<close>

theorem C10_clearEvents_frame:
  fixes s :: "'a Tracker_scheme" and sa :: TrackerA
  shows
  "events (clearEvents s) = [] \<and>
   ls_events (storage (clearEvents s)) = Absent \<and>
   uuid (clearEvents s) = uuid s \<and>
   derivUserId (clearEvents s) = derivUserId s \<and>
   oldUuid (clearEvents s) = oldUuid s \<and>
   isLoggedIn (clearEvents s) = isLoggedIn s \<and>
   lastTrackedUrl (clearEvents s) = lastTrackedUrl s \<and>
   currentPageEventId (clearEvents s) = currentPageEventId s \<and>
   options (clearEvents s) = options s \<and>
   isInitialized (clearEvents s) = isInitialized s \<and>
   ls_user_id (storage (clearEvents s)) = ls_user_id (storage s) \<and>
   ls_old_uuid (storage (clearEvents s)) = ls_old_uuid (storage s) \<and>
   ls_attribution (storage (clearEvents s)) = ls_attribution (storage s) \<and>
   cookie_uuid (storage (clearEvents s)) = cookie_uuid (storage s) \<and>
   Tracker.more (clearEvents s) = Tracker.more s \<and>
   currentAttribution (clearEvents sa) = currentAttribution sa \<and>
   attributionExpiry (clearEvents sa) = attributionExpiry sa \<and>
   outbox (clearEvents sa) = outbox sa"
  by (simp add: clearEvents_def)

section \<open>The attribution extractor\<close>

lemma extractParams_map_of:
  "map_of (extractParams ps names a) k =
     (if k \<in> set names \<and> orUndefined (params_get ps k) \<noteq> None
      then orUndefined (params_get ps k) else map_of a k)"
proof (induction names arbitrary: a)
  case Nil
  show ?case by (simp add: extractParams_def)
next
  case (Cons n names)
  have step: "extractParams ps (n # names) a =
      extractParams ps names
        (case params_get ps n of None \<Rightarrow> a | Some v \<Rightarrow> if v \<noteq> [] then AList.update n v a else a)"
    by (simp add: extractParams_def)
  show ?case
    unfolding step Cons.IH
    by (auto simp: orUndefined_def update_conv' split: option.splits if_splits)
qed

lemma extractParams_distinct:
  "distinct (map fst a) \<Longrightarrow> distinct (map fst (extractParams ps names a))"
proof (induction names arbitrary: a)
  case Nil
  then show ?case by (simp add: extractParams_def)
next
  case (Cons n names)
  have step: "extractParams ps (n # names) a =
      extractParams ps names
        (case params_get ps n of None \<Rightarrow> a | Some v \<Rightarrow> if v \<noteq> [] then AList.update n v a else a)"
    by (simp add: extractParams_def)
  show ?case
    unfolding step using Cons.prems
    by (intro Cons.IH) (auto simp: distinct_update split: option.splits)
qed

lemma addReferrer_map_of:
  "map_of (addReferrer w a) k =
     (if k = ''referrer'' \<and> doc_referrer w \<noteq> [] \<and>
         (\<exists>r. newURL w (doc_referrer w) = Some r \<and> hostname r \<noteq> hostname (location w))
      then Some (doc_referrer w) else map_of a k)"
  by (auto simp: addReferrer_def update_conv' split: option.splits)

lemma addReferrer_distinct:
  "distinct (map fst a) \<Longrightarrow> distinct (map fst (addReferrer w a))"
  by (auto simp: addReferrer_def distinct_update split: option.splits)

lemma parse_B_map_of:
  "map_of (props (parseAttributionData_B w)) k =
     (if k = ''landing_page'' then Some (pathname (location w))
      else if k = ''referrer'' \<and> externalReferrer w then Some (doc_referrer w)
      else if k \<in> set (utmParams_B @ clickIds)
      then orUndefined (params_get (searchParams (location w)) k)
      else None)"
  by (auto simp: parseAttributionData_B_def Let_def update_conv' addReferrer_map_of
      extractParams_map_of externalReferrer_def split: option.splits)

lemma parse_A_map_of:
  "map_of (props (parseAttributionData_A w)) k =
     (if k = ''landing_page'' then Some (pathname (location w))
      else if k = ''referrer'' \<and> externalReferrer w then Some (doc_referrer w)
      else if k \<in> set (utmParams_A @ clickIds)
      then orUndefined (params_get (searchParams (location w)) k)
      else None)"
  by (auto simp: parseAttributionData_A_def Let_def update_conv' addReferrer_map_of
      extractParams_map_of externalReferrer_def split: option.splits)

lemma parse_distinct:
  "distinct (map fst (props (parseAttributionData_B w)))"
  "distinct (map fst (props (parseAttributionData_A w)))"
  by (simp_all add: parseAttributionData_B_def parseAttributionData_A_def Let_def distinct_update
      addReferrer_distinct extractParams_distinct)

text \<open>
  C8 (amended). In both variants the extracted record has a referrer, the document
  referrer itself, exactly when the document referrer is not empty, parses as a URL,
  and its hostname differs from the hostname of the page. A referrer of the same
  hostname, an empty one and one that does not parse are left out; nothing is raised.
  The scheme and the port of the referrer play no part.
\<close>

theorem C8_referrer_external_host:
  "map_of (props (parseAttributionData_B w)) ''referrer'' =
     (if doc_referrer w \<noteq> [] \<and>
         (\<exists>r. newURL w (doc_referrer w) = Some r \<and> hostname r \<noteq> hostname (location w))
      then Some (doc_referrer w) else None) \<and>
   map_of (props (parseAttributionData_A w)) ''referrer'' =
     (if doc_referrer w \<noteq> [] \<and>
         (\<exists>r. newURL w (doc_referrer w) = Some r \<and> hostname r \<noteq> hostname (location w))
      then Some (doc_referrer w) else None)"
proof -
  have e: "externalReferrer w \<longleftrightarrow> doc_referrer w \<noteq> [] \<and>
         (\<exists>r. newURL w (doc_referrer w) = Some r \<and> hostname r \<noteq> hostname (location w))"
    by (auto simp: externalReferrer_def split: option.splits)
  have n: "''referrer'' \<notin> set (utmParams_B @ clickIds)" "''referrer'' \<notin> set (utmParams_A @ clickIds)"
    by (simp_all add: utmParams_B_def utmParams_A_def clickIds_def)
  show ?thesis
    using n by (simp add: parse_B_map_of parse_A_map_of e)
qed

theorem C8_witness:
  "map_of (props (parseAttributionData_B (referred_browser ''https://partner.test/''))) ''referrer''
     = Some ''https://partner.test/'' \<and>
   map_of (props (parseAttributionData_A (referred_browser ''not a url''))) ''referrer'' = None"
proof -
  have a: "doc_referrer (referred_browser ''https://partner.test/'') \<noteq> [] \<and>
      (\<exists>r. newURL (referred_browser ''https://partner.test/'')
              (doc_referrer (referred_browser ''https://partner.test/'')) = Some r \<and>
           hostname r \<noteq> hostname (location (referred_browser ''https://partner.test/'')))"
    by (simp add: referred_browser_def example_newURL_def partner_url_def offers_url_def
        home_browser_def example_browser_def example_page_def)
  have b: "\<not> (doc_referrer (referred_browser ''not a url'') \<noteq> [] \<and>
      (\<exists>r. newURL (referred_browser ''not a url'')
              (doc_referrer (referred_browser ''not a url'')) = Some r \<and>
           hostname r \<noteq> hostname (location (referred_browser ''not a url''))))"
    by (simp add: referred_browser_def example_newURL_def partner_url_def offers_url_def)
  have c: "doc_referrer (referred_browser ''https://partner.test/'') = ''https://partner.test/''"
    by (simp add: referred_browser_def)
  have p: "map_of (props (parseAttributionData_B (referred_browser ''https://partner.test/''))) ''referrer''
      = Some (doc_referrer (referred_browser ''https://partner.test/''))"
    by (rule trans [OF conjunct1 [OF C8_referrer_external_host] if_P [OF a]])
  have q: "map_of (props (parseAttributionData_A (referred_browser ''not a url''))) ''referrer'' = None"
    by (rule trans [OF conjunct2 [OF C8_referrer_external_host] if_not_P [OF b]])
  show ?thesis
    using p q by (simp only: c simp_thms)
qed

text \<open>
  C8 as stated fails for a referrer of another origin on the same host: the page is
  \<^verbatim>\<open>https://example.com/\<close>, the referrer \<^verbatim>\<open>http://example.com/offers\<close>; the origins
  differ, and the record has no referrer.
\<close>

theorem C8_counterexample:
  "doc_referrer (referred_browser ''http://example.com/offers'') \<noteq> [] \<and>
   newURL (referred_browser ''http://example.com/offers'')
     (doc_referrer (referred_browser ''http://example.com/offers'')) = Some offers_url \<and>
   origin offers_url = ''http://example.com'' \<and>
   origin (location (referred_browser ''http://example.com/offers'')) = ''https://example.com'' \<and>
   map_of (props (parseAttributionData_B (referred_browser ''http://example.com/offers''))) ''referrer''
     = None \<and>
   map_of (props (parseAttributionData_A (referred_browser ''http://example.com/offers''))) ''referrer''
     = None"
  by code_simp

section \<open>Variant B: when a page view is logged\<close>

lemma list_ex_alist:
  "distinct (map fst al) \<Longrightarrow>
   list_ex (\<lambda>(k, v). P k v) al \<longleftrightarrow> (\<exists>k v. map_of al k = Some v \<and> P k v)"
  by (auto simp: list_ex_iff)

lemma marketing_keys_B:
  "k \<in> set (utmParams_B @ clickIds) \<Longrightarrow> k \<noteq> ''referrer'' \<and> k \<noteq> ''landing_page''"
  by (auto simp: utmParams_B_def clickIds_def)

lemma orUndefined_Some: "orUndefined x = Some v \<Longrightarrow> v \<noteq> []"
  by (auto simp: orUndefined_def split: option.splits if_splits)

lemma parse_B_marketing:
  "k \<noteq> ''referrer'' \<Longrightarrow> k \<noteq> ''landing_page'' \<Longrightarrow>
   map_of (props (parseAttributionData_B w)) k = Some v \<Longrightarrow>
   k \<in> set (utmParams_B @ clickIds) \<and> v \<noteq> []"
  by (auto simp: parse_B_map_of orUndefined_Some split: if_splits)

lemma differs_iff:
  "(\<exists>v. a = Some v \<and> b \<noteq> Some v) \<longleftrightarrow> \<not> (a = None \<or> a = b)"
  by (cases a) auto

lemma isNewAttributionSource_parse_B:
  "isNewAttributionSource w s (parseAttributionData_B w) \<longleftrightarrow>
     \<not> (events s \<noteq> [] \<and> url (last (events s)) = href (location w) \<and>
        (\<forall>k \<in> set (utmParams_B @ clickIds).
           map_of (props (parseAttributionData_B w)) k = None \<or>
           map_of (props (parseAttributionData_B w)) k =
             map_of (props (attribution (last (events s)))) k))"
proof -
  let ?fresh = "props (parseAttributionData_B w)"
  let ?last = "props (attribution (last (events s)))"
  let ?P = "\<lambda>key v. if key = ''referrer'' \<or> key = ''landing_page'' then False
                 else v \<noteq> [] \<and> map_of ?last key \<noteq> Some v"
  let ?R = "\<exists>k \<in> set (utmParams_B @ clickIds). \<exists>v. map_of ?fresh k = Some v \<and> map_of ?last k \<noteq> Some v"
  have ts: "attribution_timestamp (parseAttributionData_B w) = None"
    by (simp add: parseAttributionData_B_def Let_def)
  have al: "list_ex (\<lambda>(key, v). ?P key v) ?fresh \<longleftrightarrow> (\<exists>k v. map_of ?fresh k = Some v \<and> ?P k v)"
    using parse_distinct(1) [of w] by (rule list_ex_alist)
  have "(\<exists>k v. map_of ?fresh k = Some v \<and> ?P k v) \<longleftrightarrow> ?R"
  proof
    assume "\<exists>k v. map_of ?fresh k = Some v \<and> ?P k v"
    then obtain k v where kv: "map_of ?fresh k = Some v" and p: "?P k v" by blast
    from p have n: "k \<noteq> ''referrer''" "k \<noteq> ''landing_page''" and d: "map_of ?last k \<noteq> Some v"
      by (simp_all split: if_splits)
    from parse_B_marketing [OF n kv] have "k \<in> set (utmParams_B @ clickIds)" by simp
    with kv d show ?R by blast
  next
    assume ?R
    then obtain k v where kv: "k \<in> set (utmParams_B @ clickIds)" "map_of ?fresh k = Some v"
        "map_of ?last k \<noteq> Some v" by blast
    from kv(1) have n: "k \<noteq> ''referrer''" "k \<noteq> ''landing_page''"
      using marketing_keys_B [of k] by simp_all
    from parse_B_marketing [OF n kv(2)] have "v \<noteq> []" by simp
    with kv(3) n have "?P k v" by simp
    with kv(2) show "\<exists>k v. map_of ?fresh k = Some v \<and> ?P k v" by blast
  qed
  with al have ex: "list_ex (\<lambda>(key, v). ?P key v) ?fresh \<longleftrightarrow> ?R" by (simp only:)
  have r: "?R \<longleftrightarrow> \<not> (\<forall>k \<in> set (utmParams_B @ clickIds). map_of ?fresh k = None \<or> map_of ?fresh k = map_of ?last k)"
    by (simp only: differs_iff) blast
  show ?thesis
  proof (cases "events s = []")
    case True
    then show ?thesis by (simp add: isNewAttributionSource_def)
  next
    case False
    show ?thesis
    proof (cases "url (last (events s)) = href (location w)")
      case u: False
      with False show ?thesis by (simp add: isNewAttributionSource_def Let_def)
    next
      case u: True
      have "isNewAttributionSource w s (parseAttributionData_B w) \<longleftrightarrow> list_ex (\<lambda>(key, v). ?P key v) ?fresh"
        using False u by (simp only: isNewAttributionSource_def Let_def ts option.case if_False if_True not_True_eq_False simp_thms)
      also have "\<dots> \<longleftrightarrow> ?R" by (rule ex)
      finally show ?thesis using False u r by (simp only: simp_thms)
    qed
  qed
qed


text \<open>
  C2 (amended). \<^verbatim>\<open>trackCurrentPageView\<close> of variant B logs nothing exactly when the
  log is not empty, the URL is that of the last logged event, and every one of the 10
  marketing fields that the freshly extracted record has carries the same value in the
  attribution of the last logged event. Otherwise it appends the new event (with
  \<^verbatim>\<open>addEvent\<close>) and makes it the current event. A field that only the last event has is
  not compared; referrer and landing page are not compared.
\<close>

theorem C2_dedup_per_event:
  "trackCurrentPageView_B w s =
     (if events s \<noteq> [] \<and> url (last (events s)) = href (location w) \<and>
         (\<forall>k \<in> set (utmParams_B @ clickIds).
            map_of (props (parseAttributionData_B w)) k = None \<or>
            map_of (props (parseAttributionData_B w)) k =
              map_of (props (attribution (last (events s)))) k)
      then s
      else addEvent w (newPageViewEvent w s (parseAttributionData_B w) (generateUUID w))
             (s\<lparr>currentPageEventId := Some (generateUUID w)\<rparr>))"
proof -
  have swap: "\<And>P (x :: 'a Tracker_scheme) y. (if \<not> P then x else y) = (if P then y else x)"
    by simp
  show ?thesis
    unfolding trackCurrentPageView_B_def Let_def isNewAttributionSource_parse_B
    by (rule swap)
qed

theorem C2_witness:
  "trackCurrentPageView_B home_browser (example_tracker 100 [campaign_event])
     = example_tracker 100 [campaign_event] \<and>
   events (trackCurrentPageView_B campaign_browser (example_tracker 100 [example_event 0]))
     = [example_event 0,
        newPageViewEvent campaign_browser (example_tracker 100 [example_event 0])
          (parseAttributionData_B campaign_browser) (generateUUID campaign_browser)]"
proof -
  let ?t = "example_tracker 100 [campaign_event]"
  let ?u = "example_tracker 100 [example_event 0]"
  have skip: "events ?t \<noteq> [] \<and> url (last (events ?t)) = href (location home_browser) \<and>
         (\<forall>k \<in> set (utmParams_B @ clickIds).
            map_of (props (parseAttributionData_B home_browser)) k = None \<or>
            map_of (props (parseAttributionData_B home_browser)) k =
              map_of (props (attribution (last (events ?t)))) k)"
    by code_simp
  have log: "\<not> (events ?u \<noteq> [] \<and> url (last (events ?u)) = href (location campaign_browser) \<and>
         (\<forall>k \<in> set (utmParams_B @ clickIds).
            map_of (props (parseAttributionData_B campaign_browser)) k = None \<or>
            map_of (props (parseAttributionData_B campaign_browser)) k =
              map_of (props (attribution (last (events ?u)))) k))"
    by code_simp
  have a: "trackCurrentPageView_B home_browser ?t = ?t"
    by (rule trans [OF C2_dedup_per_event if_P [OF skip]])
  have b: "trackCurrentPageView_B campaign_browser ?u =
      addEvent campaign_browser
        (newPageViewEvent campaign_browser ?u (parseAttributionData_B campaign_browser)
           (generateUUID campaign_browser))
        (?u\<lparr>currentPageEventId := Some (generateUUID campaign_browser)\<rparr>)"
    by (rule trans [OF C2_dedup_per_event if_not_P [OF log]])
  have c: "events (addEvent campaign_browser
        (newPageViewEvent campaign_browser ?u (parseAttributionData_B campaign_browser)
           (generateUUID campaign_browser))
        (?u\<lparr>currentPageEventId := Some (generateUUID campaign_browser)\<rparr>)) =
      [example_event 0,
        newPageViewEvent campaign_browser ?u
          (parseAttributionData_B campaign_browser) (generateUUID campaign_browser)]"
    by code_simp
  show ?thesis
    using a b c by (simp only:)
qed


text \<open>
  C2 as stated fails where the last event has a marketing field that the fresh record
  lacks: the last event was logged for the same URL with \<^verbatim>\<open>utm_source\<close>, the fresh
  record has no \<^verbatim>\<open>utm_source\<close>, and nothing is logged.
\<close>

theorem C2_counterexample:
  "events (example_tracker 100 [campaign_event]) \<noteq> [] \<and>
   url (last (events (example_tracker 100 [campaign_event]))) = href (location home_browser) \<and>
   map_of (props (attribution (last (events (example_tracker 100 [campaign_event]))))) ''utm_source''
     = Some ''google'' \<and>
   map_of (props (parseAttributionData_B home_browser)) ''utm_source'' = None \<and>
   trackCurrentPageView_B home_browser (example_tracker 100 [campaign_event])
     = example_tracker 100 [campaign_event]"
  by code_simp


section \<open>Variant A: the attribution of a page view\<close>

lemma attributionParams_set:
  "set attributionParams = set (utmParams_A @ clickIds)"
  "set attributionParams = set (utmParams_B @ clickIds)"
  by (auto simp: attributionParams_def utmParams_A_def utmParams_B_def clickIds_def)

lemma attributionParams_keys:
  "k \<in> set attributionParams \<Longrightarrow> k \<noteq> ''referrer'' \<and> k \<noteq> ''landing_page''"
  by (auto simp: attributionParams_def)

lemma hasNewAttributionData_parse_A:
  "hasNewAttributionData (parseAttributionData_A w) \<longleftrightarrow>
     (\<exists>k \<in> set attributionParams. \<exists>v. params_get (searchParams (location w)) k = Some v \<and> v \<noteq> [])"
proof -
  have "\<And>k. k \<in> set attributionParams \<Longrightarrow>
      map_of (props (parseAttributionData_A w)) k = orUndefined (params_get (searchParams (location w)) k)"
    using attributionParams_keys attributionParams_set(1) by (simp add: parse_A_map_of)
  then have "hasNewAttributionData (parseAttributionData_A w) \<longleftrightarrow>
      (\<exists>k \<in> set attributionParams. orUndefined (params_get (searchParams (location w)) k) \<noteq> None)"
    by (simp add: hasNewAttributionData_def list_ex_iff)
  also have "\<dots> \<longleftrightarrow> (\<exists>k \<in> set attributionParams. \<exists>v. params_get (searchParams (location w)) k = Some v \<and> v \<noteq> [])"
    by (auto simp: orUndefined_def split: option.splits if_splits)
  finally show ?thesis .
qed

lemma last_lastN: "0 < n \<Longrightarrow> xs \<noteq> [] \<Longrightarrow> last (lastN n xs) = last xs"
  by (simp add: lastN_def)

lemma last_addEvent: "0 < maxEvents (options s) \<Longrightarrow> last (events (addEvent w e s)) = e"
proof -
  assume m: "0 < maxEvents (options s)"
  let ?es = "lastN (maxEvents (options s)) (events s @ [e])"
  have a: "last ?es = e" using m by (simp add: last_lastN)
  have ne: "?es \<noteq> []" using m by (simp add: lastN_def)
  then have b: "last (lastN 10 ?es) = e" using a by (simp add: last_lastN)
  show ?thesis
    using a b by (simp add: addEvent_events Let_def)
qed

lemma newPageViewEvent_attribution [simp]: "attribution (newPageViewEvent w s a i) = a"
  by (simp add: newPageViewEvent_def)

lemma newPageViewEvent_cong:
  "uuid s' = uuid s \<Longrightarrow> isLoggedIn s' = isLoggedIn s \<Longrightarrow>
   newPageViewEvent w s' a i = newPageViewEvent w s a i"
  by (simp add: newPageViewEvent_def)

lemma addEvent_events_cong:
  "events s' = events s \<Longrightarrow> options s' = options s \<Longrightarrow>
   events (addEvent w e s') = events (addEvent w e s)"
  by (simp add: addEvent_events)

lemma trackCurrentPageView_A_unfold:
  assumes "lastTrackedUrl s \<noteq> href (location w)"
  shows "events (trackCurrentPageView_A w s) =
           events (addEvent w
             (newPageViewEvent w s (fst (getAttributionForPageView w s)) (generateUUID w)) s) \<and>
         currentAttribution (trackCurrentPageView_A w s) =
           currentAttribution (snd (getAttributionForPageView w s)) \<and>
         ls_attribution (storage (trackCurrentPageView_A w s)) =
           ls_attribution (storage (snd (getAttributionForPageView w s)))"
proof -
  let ?s1 = "s\<lparr>lastTrackedUrl := href (location w)\<rparr>"
  obtain a s2 where g: "getAttributionForPageView w ?s1 = (a, s2)"
    by (cases "getAttributionForPageView w ?s1")
  have g0: "fst (getAttributionForPageView w s) = a"
    "currentAttribution (snd (getAttributionForPageView w s)) = currentAttribution s2"
    "ls_attribution (storage (snd (getAttributionForPageView w s))) = ls_attribution (storage s2)"
    using g by (auto simp: getAttributionForPageView_def Let_def saveAttributionData_def split: if_splits)
  have f: "uuid s2 = uuid s" "isLoggedIn s2 = isLoggedIn s" "events s2 = events s" "options s2 = options s"
    using getAttributionForPageView_frame [of w ?s1] by (simp_all add: g)
  have e: "newPageViewEvent w s2 a (generateUUID w) = newPageViewEvent w s a (generateUUID w)"
    using f by (intro newPageViewEvent_cong)
  have t: "trackCurrentPageView_A w s =
      addEvent_A w (newPageViewEvent w s a (generateUUID w)) (s2\<lparr>currentPageEventId := Some (generateUUID w)\<rparr>)"
    using assms by (simp add: trackCurrentPageView_A_def Let_def g e)
  have "events (trackCurrentPageView_A w s) = events (addEvent w (newPageViewEvent w s a (generateUUID w)) s)"
    unfolding t addEvent_A_events using f by (intro addEvent_events_cong) simp_all
  moreover have "currentAttribution (trackCurrentPageView_A w s) = currentAttribution s2"
    unfolding t by (simp add: addEvent_A_def)
  moreover have "ls_attribution (storage (trackCurrentPageView_A w s)) = ls_attribution (storage s2)"
    unfolding t by (simp add: addEvent_A_def addEvent_alt)
  ultimately show ?thesis by (simp add: g0)
qed

text \<open>
  C4 (amended). In variant A, a navigation to a new URL that carries at least one of the
  10 marketing fields with a non-empty value appends (with \<^verbatim>\<open>addEvent\<close>) an event whose
  attribution is the record extracted from that URL, nothing of an earlier record, and
  overwrites \<^verbatim>\<open>currentAttribution\<close> with that record. The record is written to storage;
  when that write fails, the failure is logged and the stored copy stays as it was.
\<close>

theorem C4_new_attribution_overwrites:
  assumes "lastTrackedUrl s \<noteq> href (location w)"
    and "\<exists>k \<in> set attributionParams. \<exists>v. params_get (searchParams (location w)) k = Some v \<and> v \<noteq> []"
  shows "events (trackCurrentPageView_A w s) =
           events (addEvent w
             (newPageViewEvent w s (parseAttributionData_A w) (generateUUID w)) s) \<and>
         (0 < maxEvents (options s) \<longrightarrow>
            attribution (last (events (trackCurrentPageView_A w s))) = parseAttributionData_A w) \<and>
         currentAttribution (trackCurrentPageView_A w s) = parseAttributionData_A w \<and>
         (setItem_attribution w (parseAttributionData_A w) = Stored \<longrightarrow>
            ls_attribution (storage (trackCurrentPageView_A w s)) = Json (parseAttributionData_A w)) \<and>
         (setItem_attribution w (parseAttributionData_A w) \<noteq> Stored \<longrightarrow>
            ls_attribution (storage (trackCurrentPageView_A w s)) = ls_attribution (storage s))"
proof -
  have h: "hasNewAttributionData (parseAttributionData_A w)"
    using assms(2) by (simp only: hasNewAttributionData_parse_A)
  have g: "getAttributionForPageView w s =
      (parseAttributionData_A w,
       saveAttributionData w (s\<lparr>currentAttribution := parseAttributionData_A w\<rparr>))"
    using h by (simp add: getAttributionForPageView_def Let_def)
  have e: "events (trackCurrentPageView_A w s) =
      events (addEvent w (newPageViewEvent w s (parseAttributionData_A w) (generateUUID w)) s)"
    using trackCurrentPageView_A_unfold [OF assms(1)] by (simp add: g)
  have l: "0 < maxEvents (options s) \<Longrightarrow>
      attribution (last (events (trackCurrentPageView_A w s))) = parseAttributionData_A w"
    unfolding e by (simp add: last_addEvent)
  have c: "currentAttribution (trackCurrentPageView_A w s) = parseAttributionData_A w"
    using trackCurrentPageView_A_unfold [OF assms(1)] by (simp add: g)
  have st: "ls_attribution (storage (trackCurrentPageView_A w s)) =
      (if setItem_attribution w (parseAttributionData_A w) = Stored
       then Json (parseAttributionData_A w) else ls_attribution (storage s))"
    using trackCurrentPageView_A_unfold [OF assms(1)] by (simp add: g saveAttributionData_def)
  show ?thesis
    using e l c st by simp
qed

theorem C4_witness:
  "currentAttribution
     (trackCurrentPageView_A campaign_browser
        (example_trackerA (example_tracker 100 []) 43200 stale_attribution))
     = parseAttributionData_A campaign_browser \<and>
   ls_attribution (storage
     (trackCurrentPageView_A campaign_browser
        (example_trackerA (example_tracker 100 []) 43200 stale_attribution)))
     = Json (parseAttributionData_A campaign_browser) \<and>
   attribution (last (events
     (trackCurrentPageView_A campaign_browser
        (example_trackerA (example_tracker 100 []) 43200 stale_attribution))))
     = parseAttributionData_A campaign_browser \<and>
   map_of (props (parseAttributionData_A campaign_browser)) ''utm_term'' = None"
proof -
  let ?s = "example_trackerA (example_tracker 100 []) 43200 stale_attribution"
  have a: "lastTrackedUrl ?s \<noteq> href (location campaign_browser)"
    by code_simp
  have "''utm_source'' \<in> set attributionParams \<and>
      params_get (searchParams (location campaign_browser)) ''utm_source'' = Some ''google'' \<and>
      ''google'' \<noteq> []"
    by code_simp
  then have b: "\<exists>k \<in> set attributionParams. \<exists>v.
      params_get (searchParams (location campaign_browser)) k = Some v \<and> v \<noteq> []"
    by blast
  have m: "0 < maxEvents (options ?s)"
    by code_simp
  have w: "setItem_attribution campaign_browser (parseAttributionData_A campaign_browser) = Stored"
    by code_simp
  have t: "map_of (props (parseAttributionData_A campaign_browser)) ''utm_term'' = None"
    by code_simp
  show ?thesis
    using C4_new_attribution_overwrites [OF a b] m w t by blast
qed

text \<open>
  C4 as stated fails when the write of the attribution record fails: the navigation
  carries \<^verbatim>\<open>utm_source\<close>, \<^verbatim>\<open>currentAttribution\<close> is overwritten, and storage still
  holds no attribution record.
\<close>

theorem C4_counterexample:
  "lastTrackedUrl (example_trackerA (example_tracker 100 []) 43200 stale_attribution)
     \<noteq> href (location (failing_attribution_write campaign_browser)) \<and>
   params_get (searchParams (location (failing_attribution_write campaign_browser))) ''utm_source''
     = Some ''google'' \<and>
   currentAttribution
     (trackCurrentPageView_A (failing_attribution_write campaign_browser)
        (example_trackerA (example_tracker 100 []) 43200 stale_attribution))
     = parseAttributionData_A (failing_attribution_write campaign_browser) \<and>
   ls_attribution (storage
     (trackCurrentPageView_A (failing_attribution_write campaign_browser)
        (example_trackerA (example_tracker 100 []) 43200 stale_attribution))) = Absent"
  by code_simp

text \<open>
  What variant A does on a navigation to a new URL that carries none of the 10 marketing
  fields (each absent or empty): it appends an event whose attribution is the
  \<^verbatim>\<open>currentAttribution\<close> held in memory with its landing page replaced by the current
  path, when that record has any property, and the freshly extracted record, which has
  no marketing field, when it has none. \<^verbatim>\<open>currentAttribution\<close> and its stored copy stay
  as they were. The expiry window is not consulted.
\<close>

theorem attribution_without_marketing_fields:
  assumes "lastTrackedUrl s \<noteq> href (location w)"
    and "\<forall>k \<in> set attributionParams. orUndefined (params_get (searchParams (location w)) k) = None"
  shows "events (trackCurrentPageView_A w s) =
           events (addEvent w
             (newPageViewEvent w s
                (if props (currentAttribution s) \<noteq> [] \<or>
                    attribution_timestamp (currentAttribution s) \<noteq> None
                 then (currentAttribution s)
                        \<lparr>props := AList.update ''landing_page'' (pathname (location w))
                                    (props (currentAttribution s))\<rparr>
                 else parseAttributionData_A w)
                (generateUUID w)) s) \<and>
         (0 < maxEvents (options s) \<longrightarrow>
            attribution (last (events (trackCurrentPageView_A w s))) =
              (if props (currentAttribution s) \<noteq> [] \<or>
                  attribution_timestamp (currentAttribution s) \<noteq> None
               then (currentAttribution s)
                      \<lparr>props := AList.update ''landing_page'' (pathname (location w))
                                  (props (currentAttribution s))\<rparr>
               else parseAttributionData_A w)) \<and>
         \<not> hasNewAttributionData (parseAttributionData_A w) \<and>
         currentAttribution (trackCurrentPageView_A w s) = currentAttribution s \<and>
         ls_attribution (storage (trackCurrentPageView_A w s)) = ls_attribution (storage s)"
proof -
  let ?a = "if props (currentAttribution s) \<noteq> [] \<or>
                    attribution_timestamp (currentAttribution s) \<noteq> None
                 then (currentAttribution s)
                        \<lparr>props := AList.update ''landing_page'' (pathname (location w))
                                    (props (currentAttribution s))\<rparr>
                 else parseAttributionData_A w"
  have h: "\<not> hasNewAttributionData (parseAttributionData_A w)"
  proof
    assume "hasNewAttributionData (parseAttributionData_A w)"
    then obtain k v where k: "k \<in> set attributionParams"
        and v: "params_get (searchParams (location w)) k = Some v" "v \<noteq> []"
      by (auto simp only: hasNewAttributionData_parse_A)
    from assms(2) k have "orUndefined (params_get (searchParams (location w)) k) = None"
      by blast
    with v show False by (simp add: orUndefined_def)
  qed
  have g: "getAttributionForPageView w s = (?a, s)"
    using h by (simp add: getAttributionForPageView_def Let_def)
  have e: "events (trackCurrentPageView_A w s) =
      events (addEvent w (newPageViewEvent w s ?a (generateUUID w)) s)"
    using trackCurrentPageView_A_unfold [OF assms(1)] by (simp only: g fst_conv)
  have l: "0 < maxEvents (options s) \<longrightarrow>
      attribution (last (events (trackCurrentPageView_A w s))) = ?a"
  proof
    assume "0 < maxEvents (options s)"
    then have "last (events (addEvent w (newPageViewEvent w s ?a (generateUUID w)) s)) =
        newPageViewEvent w s ?a (generateUUID w)"
      by (rule last_addEvent)
    then show "attribution (last (events (trackCurrentPageView_A w s))) = ?a"
      unfolding e by (simp only: newPageViewEvent_attribution)
  qed
  have c: "currentAttribution (trackCurrentPageView_A w s) = currentAttribution s"
    "ls_attribution (storage (trackCurrentPageView_A w s)) = ls_attribution (storage s)"
    using trackCurrentPageView_A_unfold [OF assms(1)] by (simp_all only: g snd_conv)
  from e l h c show ?thesis
    by (intro conjI)
qed

theorem attribution_without_marketing_fields_example:
  "attribution (last (events
     (trackCurrentPageView_A (checkout_browser 61000)
        (trackCurrentPageView_A campaign_browser
           (constructor_A defaultOptions defaultAttributionExpiry campaign_browser example_storage)))))
   = \<lparr>props = [(''utm_source'', ''google''), (''utm_medium'', ''cpc''), (''landing_page'', ''/checkout'')],
      attribution_timestamp = Some 1000\<rparr> \<and>
   attribution (last (events
     (trackCurrentPageView_A (checkout_browser 61000)
        (constructor_A defaultOptions defaultAttributionExpiry campaign_browser example_storage))))
   = parseAttributionData_A (checkout_browser 61000)"
proof -
  let ?s0 = "constructor_A defaultOptions defaultAttributionExpiry campaign_browser example_storage"
  let ?s1 = "trackCurrentPageView_A campaign_browser ?s0"
  let ?w = "checkout_browser 61000"
  have n: "\<forall>k \<in> set attributionParams. orUndefined (params_get (searchParams (location ?w)) k) = None"
    by code_simp
  have a1: "lastTrackedUrl ?s1 \<noteq> href (location ?w)" and a0: "lastTrackedUrl ?s0 \<noteq> href (location ?w)"
    by code_simp+
  have m1: "0 < maxEvents (options ?s1)" and m0: "0 < maxEvents (options ?s0)"
    by code_simp+
  have c1: "(if props (currentAttribution ?s1) \<noteq> [] \<or>
                  attribution_timestamp (currentAttribution ?s1) \<noteq> None
               then (currentAttribution ?s1)
                      \<lparr>props := AList.update ''landing_page'' (pathname (location ?w))
                                  (props (currentAttribution ?s1))\<rparr>
               else parseAttributionData_A ?w) =
      \<lparr>props = [(''utm_source'', ''google''), (''utm_medium'', ''cpc''), (''landing_page'', ''/checkout'')],
       attribution_timestamp = Some 1000\<rparr>"
    by code_simp
  have c0: "(if props (currentAttribution ?s0) \<noteq> [] \<or>
                  attribution_timestamp (currentAttribution ?s0) \<noteq> None
               then (currentAttribution ?s0)
                      \<lparr>props := AList.update ''landing_page'' (pathname (location ?w))
                                  (props (currentAttribution ?s0))\<rparr>
               else parseAttributionData_A ?w) = parseAttributionData_A ?w"
    by code_simp
  from attribution_without_marketing_fields [OF a1 n] m1
  have "attribution (last (events (trackCurrentPageView_A ?w ?s1))) =
      (if props (currentAttribution ?s1) \<noteq> [] \<or>
                  attribution_timestamp (currentAttribution ?s1) \<noteq> None
               then (currentAttribution ?s1)
                      \<lparr>props := AList.update ''landing_page'' (pathname (location ?w))
                                  (props (currentAttribution ?s1))\<rparr>
               else parseAttributionData_A ?w)"
    by blast
  then have p: "attribution (last (events (trackCurrentPageView_A ?w ?s1))) =
      \<lparr>props = [(''utm_source'', ''google''), (''utm_medium'', ''cpc''), (''landing_page'', ''/checkout'')],
       attribution_timestamp = Some 1000\<rparr>"
    by (simp only: c1)
  from attribution_without_marketing_fields [OF a0 n] m0
  have "attribution (last (events (trackCurrentPageView_A ?w ?s0))) =
      (if props (currentAttribution ?s0) \<noteq> [] \<or>
                  attribution_timestamp (currentAttribution ?s0) \<noteq> None
               then (currentAttribution ?s0)
                      \<lparr>props := AList.update ''landing_page'' (pathname (location ?w))
                                  (props (currentAttribution ?s0))\<rparr>
               else parseAttributionData_A ?w)"
    by blast
  then have q: "attribution (last (events (trackCurrentPageView_A ?w ?s0))) = parseAttributionData_A ?w"
    by (simp only: c0)
  from p q show ?thesis
    by (intro conjI)
qed

text \<open>
  C3. A persisted record that has not expired is reused with the landing page replaced,
  and without any record the event carries the freshly extracted one, as the two results
  above say. A record that expires while the page stays open is still reused: the expiry
  test of \<^verbatim>\<open>loadAttributionData\<close> is not made at a navigation. Here the window is 1
  minute, the visit with \<^verbatim>\<open>utm_source\<close> is at time 1000, and the navigation without
  marketing fields comes 2 minutes later: the event carries the expired record, not the
  freshly extracted one.
\<close>

theorem C3_expired_record_reused:
  "attribution_timestamp (currentAttribution
      (trackCurrentPageView_A campaign_browser
         (constructor_A defaultOptions 1 campaign_browser example_storage))) = Some 1000 \<and>
   attributionExpiry
      (trackCurrentPageView_A campaign_browser
         (constructor_A defaultOptions 1 campaign_browser example_storage)) = 1 \<and>
   ageInMinutes (checkout_browser 121000) 1000 = 2 \<and>
   searchParams (location (checkout_browser 121000)) = [] \<and>
   attribution (last (events
     (trackCurrentPageView_A (checkout_browser 121000)
        (trackCurrentPageView_A campaign_browser
           (constructor_A defaultOptions 1 campaign_browser example_storage)))))
   = \<lparr>props = [(''utm_source'', ''google''), (''utm_medium'', ''cpc''), (''landing_page'', ''/checkout'')],
      attribution_timestamp = Some 1000\<rparr> \<and>
   parseAttributionData_A (checkout_browser 121000)
   = \<lparr>props = [(''landing_page'', ''/checkout'')], attribution_timestamp = Some 121000\<rparr>"
  by code_simp

section \<open>Variant A: loading the persisted attribution\<close>

lemma ageInMinutes_le:
  "ageInMinutes w t \<le> real_of_int e \<longleftrightarrow> now w - t \<le> 60000 * e"
proof -
  have "ageInMinutes w t \<le> real_of_int e \<longleftrightarrow> real_of_int (now w - t) \<le> real_of_int e * 60000"
    by (simp add: ageInMinutes_def pos_divide_le_eq)
  also have "\<dots> \<longleftrightarrow> real_of_int (now w - t) \<le> real_of_int (60000 * e)"
    by (simp add: mult.commute)
  also have "\<dots> \<longleftrightarrow> now w - t \<le> 60000 * e"
    by (rule of_int_le_iff)
  finally show ?thesis .
qed

text \<open>
  The branches of \<^verbatim>\<open>loadAttributionData\<close> on a stored record. With a capture timestamp
  that the test \<^verbatim>\<open>if (attribution.attribution_timestamp)\<close> accepts: when its age in
  minutes is at most \<^verbatim>\<open>attributionExpiry\<close> (43200 by default) the record becomes
  \<^verbatim>\<open>currentAttribution\<close>; when the age is larger the storage entry is removed and
  \<^verbatim>\<open>currentAttribution\<close> is left as it was, which at construction is the empty record.
  Otherwise the record is loaded with no expiry check. The age test is
  \<open>now - timestamp \<le> 60000 * attributionExpiry\<close>.
\<close>

lemma loadAttributionData_cases:
  "(ls_attribution (storage s) = Json a \<and> attribution_timestamp a = Some t \<and> t \<noteq> 0 \<and>
      ageInMinutes w t \<le> real_of_int (attributionExpiry s)
      \<longrightarrow> loadAttributionData w s = s\<lparr>currentAttribution := a\<rparr>) \<and>
   (ls_attribution (storage s) = Json a \<and> attribution_timestamp a = Some t \<and> t \<noteq> 0 \<and>
      \<not> ageInMinutes w t \<le> real_of_int (attributionExpiry s)
      \<longrightarrow> loadAttributionData w s = s\<lparr>storage := (storage s)\<lparr>ls_attribution := Absent\<rparr>\<rparr>) \<and>
   (ls_attribution (storage s) = Json a \<and>
      (attribution_timestamp a = None \<or> attribution_timestamp a = Some 0)
      \<longrightarrow> loadAttributionData w s = s\<lparr>currentAttribution := a\<rparr>) \<and>
   (ls_attribution st = Json a \<and> attribution_timestamp a = Some t \<and> t \<noteq> 0 \<and>
      \<not> ageInMinutes w t \<le> real_of_int expiry
      \<longrightarrow> currentAttribution (constructor_A opts expiry w st) = \<lparr>props = [], attribution_timestamp = None\<rparr> \<and>
          ls_attribution (storage (constructor_A opts expiry w st)) = Absent) \<and>
   (ageInMinutes w t \<le> real_of_int e \<longleftrightarrow> now w - t \<le> 60000 * e) \<and>
   defaultAttributionExpiry = 43200"
proof -
  have p1: "ls_attribution (storage s) = Json a \<and> attribution_timestamp a = Some t \<and> t \<noteq> 0 \<and>
      ageInMinutes w t \<le> real_of_int (attributionExpiry s)
      \<longrightarrow> loadAttributionData w s = s\<lparr>currentAttribution := a\<rparr>"
    by (simp add: loadAttributionData_def)
  have p2: "ls_attribution (storage s) = Json a \<and> attribution_timestamp a = Some t \<and> t \<noteq> 0 \<and>
      \<not> ageInMinutes w t \<le> real_of_int (attributionExpiry s)
      \<longrightarrow> loadAttributionData w s = s\<lparr>storage := (storage s)\<lparr>ls_attribution := Absent\<rparr>\<rparr>"
    by (simp add: loadAttributionData_def)
  have p3: "ls_attribution (storage s) = Json a \<and>
      (attribution_timestamp a = None \<or> attribution_timestamp a = Some 0)
      \<longrightarrow> loadAttributionData w s = s\<lparr>currentAttribution := a\<rparr>"
    by (auto simp add: loadAttributionData_def)
  have p4: "ls_attribution st = Json a \<and> attribution_timestamp a = Some t \<and> t \<noteq> 0 \<and>
      \<not> ageInMinutes w t \<le> real_of_int expiry
      \<longrightarrow> currentAttribution (constructor_A opts expiry w st) = \<lparr>props = [], attribution_timestamp = None\<rparr> \<and>
          ls_attribution (storage (constructor_A opts expiry w st)) = Absent"
    by (simp add: constructor_A_def loadAttributionData_def getOrCreateUUID_def
        split: prod.splits option.splits)
  have p5: "ageInMinutes w t \<le> real_of_int e \<longleftrightarrow> now w - t \<le> 60000 * e"
    by (rule ageInMinutes_le)
  have p6: "defaultAttributionExpiry = 43200"
    by (simp add: defaultAttributionExpiry_def)
  from p1 p2 p3 p4 p5 p6 show ?thesis
    by (intro conjI)
qed

text \<open>
  C7. The stored record was captured at time 1700000000000 and the window is the
  default 30 days (2592000000 ms). The tracker is constructed one second before the end
  of the window and loads the record. \<^verbatim>\<open>init\<close> runs two seconds later, after the end of
  the window, and loads again: the age exceeds the window and the storage entry is
  removed, but \<^verbatim>\<open>currentAttribution\<close> still holds the expired record, and the page view
  that \<^verbatim>\<open>init\<close> tracks carries it. A tracker constructed at that later time holds the
  empty record, and its page view carries the record extracted from the URL.
\<close>

theorem C7_expired_record_kept:
  "ls_attribution (stored_attribution november_attribution) = Json november_attribution \<and>
   attribution_timestamp november_attribution = Some 1700000000000 \<and>
   now (checkout_browser 1702591999000) - 1700000000000 \<le> 60000 * defaultAttributionExpiry \<and>
   currentAttribution imported_tracker = november_attribution \<and>
   ls_attribution (storage imported_tracker) = Json november_attribution \<and>
   60000 * defaultAttributionExpiry < now (checkout_browser 1702592001000) - 1700000000000 \<and>
   ls_attribution (storage
     (loadAttributionData (checkout_browser 1702592001000) imported_tracker)) = Absent \<and>
   currentAttribution
     (loadAttributionData (checkout_browser 1702592001000) imported_tracker)
     = november_attribution \<and>
   ls_attribution (storage
     (init_A (checkout_browser 1702592001000) None None imported_tracker)) = Absent \<and>
   attribution (last (events
     (init_A (checkout_browser 1702592001000) None None imported_tracker)))
     = \<lparr>props = [(''utm_source'', ''google''), (''utm_medium'', ''cpc''),
                 (''landing_page'', ''/checkout'')],
        attribution_timestamp = Some 1700000000000\<rparr> \<and>
   currentAttribution
     (constructor_A defaultOptions defaultAttributionExpiry (checkout_browser 1702592001000)
        (stored_attribution november_attribution))
     = \<lparr>props = [], attribution_timestamp = None\<rparr> \<and>
   attribution (last (events
     (init_A (checkout_browser 1702592001000) None None
        (constructor_A defaultOptions defaultAttributionExpiry (checkout_browser 1702592001000)
           (stored_attribution november_attribution)))))
     = \<lparr>props = [(''landing_page'', ''/checkout'')],
        attribution_timestamp = Some 1702592001000\<rparr>"
  by code_simp

section \<open>What a caller can change through the result of getEvents\<close>

lemma lookup_append: "a < length h \<Longrightarrow> lookup (h @ k) a = lookup h a"
  by (simp add: lookup_def nth_append)

lemma wellFormedLogD:
  assumes "wellFormedLog h a"
  obtains refs where "lookup h a = Some (Array refs)"
    and "\<forall>r \<in> set refs. \<exists>e. lookup h r = Some (Object e)"
proof -
  from assms obtain refs where r: "lookup h a = Some (Array refs)"
      and la: "list_all (\<lambda>r. case lookup h r of Some (Object e) \<Rightarrow> True | _ \<Rightarrow> False) refs"
    by (auto simp: wellFormedLog_def split: option.splits cell.splits)
  have "\<exists>e. lookup h x = Some (Object e)" if "x \<in> set refs" for x
  proof -
    from la that have "case lookup h x of Some (Object e) \<Rightarrow> True | _ \<Rightarrow> False"
      by (simp add: list_all_iff)
    then show ?thesis
      by (cases "lookup h x") (auto split: cell.splits)
  qed
  with r that show ?thesis by blast
qed

lemma derefAll_cong:
  "\<forall>r \<in> set refs. lookup h' r = lookup h r \<Longrightarrow> derefAll h' refs = derefAll h refs"
  by (induction refs) (simp_all add: derefAll_def)

lemma eventsAt_append:
  assumes "wellFormedLog h a"
  shows "eventsAt (h @ k) a = eventsAt h a"
proof -
  from assms obtain refs where r: "lookup h a = Some (Array refs)"
      and all: "\<forall>r \<in> set refs. \<exists>e. lookup h r = Some (Object e)"
    by (rule wellFormedLogD)
  from r have a: "a < length h" by (auto simp: lookup_def split: if_splits)
  have "\<forall>r \<in> set refs. lookup (h @ k) r = lookup h r"
    using all by (auto simp: lookup_def nth_append split: if_splits)
  then have "derefAll (h @ k) refs = derefAll h refs"
    by (rule derefAll_cong)
  then show ?thesis
    by (simp add: eventsAt_def lookup_append [OF a] r)
qed

lemma getEvents_heap_copy:
  assumes "wellFormedLog h this_events"
  shows "eventsAt (snd (getEvents_heap h this_events)) (fst (getEvents_heap h this_events))
           = eventsAt h this_events \<and>
         eventsAt (snd (getEvents_heap h this_events)) this_events = eventsAt h this_events \<and>
         fst (getEvents_heap h this_events) \<noteq> this_events \<and>
         eventsAt (assign_array (snd (getEvents_heap h this_events))
                     (fst (getEvents_heap h this_events)) refs') this_events
           = eventsAt h this_events"
proof -
  from assms obtain refs where r: "lookup h this_events = Some (Array refs)"
      and all: "\<forall>r \<in> set refs. \<exists>e. lookup h r = Some (Object e)"
    by (rule wellFormedLogD)
  from r have a: "this_events < length h" by (auto simp: lookup_def split: if_splits)
  have g: "getEvents_heap h this_events = (length h, h @ [Array refs])"
    by (simp add: getEvents_heap_def r alloc_def)
  have same: "eventsAt (h @ [Array refs]) this_events = eventsAt h this_events"
    using assms by (rule eventsAt_append)
  have "\<forall>r \<in> set refs. lookup (h @ [Array refs]) r = lookup h r"
    using all by (auto simp: lookup_def nth_append split: if_splits)
  then have "derefAll (h @ [Array refs]) refs = derefAll h refs"
    by (rule derefAll_cong)
  moreover have "lookup (h @ [Array refs]) (length h) = Some (Array refs)"
    by (simp add: lookup_def)
  ultimately have new: "eventsAt (h @ [Array refs]) (length h) = eventsAt h this_events"
    by (simp add: eventsAt_def r)
  have w: "assign_array (h @ [Array refs]) (length h) refs' = h @ [Array refs']"
    by (simp add: assign_array_def lookup_def)
  have "eventsAt (h @ [Array refs']) this_events = eventsAt h this_events"
    using assms by (rule eventsAt_append)
  with same new w a show ?thesis
    by (simp add: g)
qed

text \<open>
  C9. The array that \<^verbatim>\<open>getEvents\<close> returns holds the events of the log, and changes to
  that array do not reach the log (\<open>getEvents_heap_copy\<close>). The event objects are
  shared: here the log holds two events, the caller sets \<^verbatim>\<open>is_loggedin\<close> of the first
  element of the returned array, and the first event of the log has changed.
\<close>

theorem C9_shared_event_objects:
  "fst (getEvents_heap example_heap 2) = 3 \<and>
   eventsAt (snd (getEvents_heap example_heap 2)) 3 = [example_event 0, example_event 1] \<and>
   eventsAt (snd (getEvents_heap example_heap 2)) 2 = [example_event 0, example_event 1] \<and>
   eventsAt (assign_array (snd (getEvents_heap example_heap 2)) 3 []) 2
     = [example_event 0, example_event 1] \<and>
   eventsAt (assign_is_loggedin (snd (getEvents_heap example_heap 2)) 3 0 True) 2
     = [(example_event 0)\<lparr>is_loggedin := True\<rparr>, example_event 1]"
  by code_simp

end
